theory Spec2Isabelle
  imports Complex_Main
begin

section \<open>Tensors\<close>

text \<open>
  The program of \<^verbatim>\<open>diffusion_mnist_denoising.py\<close> computes with torch tensors. A tensor is
  modelled as torch stores a contiguous one: its shape and its elements in row-major order.
  Floating-point numbers are idealised as real numbers, so every statement below is one of
  exact arithmetic: rounding, overflow, infinities and NaN are not represented. One-dimensional
  tensors (the schedule's coefficient arrays, a batch of timesteps) are plain lists.
\<close>

record tensor =
  shape :: "nat list"
  elems :: "real list"

definition numel :: "nat list \<Rightarrow> nat" where
  "numel s = prod_list s"

definition well_shaped :: "tensor \<Rightarrow> bool" where
  "well_shaped x \<longleftrightarrow> length (elems x) = numel (shape x)"

text \<open>The exceptions of the program: torch raises \<^verbatim>\<open>RuntimeError\<close> for an index out of
  range, for shapes or types that do not fit and for a refused argument; a failed tuple
  unpacking is Python's \<^verbatim>\<open>ValueError\<close>.\<close>

datatype error = RuntimeError | ValueError

text \<open>
  A device is the CPU or a numbered GPU; the string \<^verbatim>\<open>'cuda'\<close>, the default of the
  \<^verbatim>\<open>Diffusion\<close> constructor, names the first GPU. A host with \<open>gpus\<close> GPUs can use the CPU and
  the GPUs numbered below \<open>gpus\<close>, and \<^verbatim>\<open>x.to(device)\<close> raises \<^verbatim>\<open>RuntimeError\<close> for any other
  device. On a usable device it leaves the values as they are.
\<close>

datatype device = CPU | CUDA nat

definition usable :: "nat \<Rightarrow> device \<Rightarrow> bool" where
  "usable gpus d = (case d of CPU \<Rightarrow> True | CUDA i \<Rightarrow> i < gpus)"

definition place_on :: "nat \<Rightarrow> device \<Rightarrow> 'a \<Rightarrow> error + 'a" where
  "place_on gpus d v = (if usable gpus d then Inr v else Inl RuntimeError)"

definition bindE :: "error + 'a \<Rightarrow> ('a \<Rightarrow> error + 'b) \<Rightarrow> error + 'b" where
  "bindE m f = (case m of Inl e \<Rightarrow> Inl e | Inr v \<Rightarrow> f v)"

text \<open>An operation between a tensor and a Python number acts on every element.\<close>

definition tmap :: "(real \<Rightarrow> real) \<Rightarrow> tensor \<Rightarrow> tensor" where
  "tmap f x = \<lparr>shape = shape x, elems = map f (elems x)\<rparr>"

subsection \<open>Broadcasting\<close>

text \<open>
  An operation between two tensors broadcasts them: the shapes are aligned at the right, the
  shorter one padded with leading 1s; two aligned dimensions must be equal or one of them 1,
  and a dimension of size 1 is read at index 0 throughout. \<open>unravel\<close> turns a flat row-major
  index into one index per dimension and \<open>ravel\<close> turns it back.
\<close>

fun unravel :: "nat list \<Rightarrow> nat \<Rightarrow> nat list" where
  "unravel [] i = []"
| "unravel (d # ds) i = (i div prod_list ds) # unravel ds (i mod prod_list ds)"

fun ravel :: "nat list \<Rightarrow> nat list \<Rightarrow> nat" where
  "ravel (d # ds) (k # ks) = k * prod_list ds + ravel ds ks"
| "ravel _ _ = 0"

definition pad_shape :: "nat \<Rightarrow> nat list \<Rightarrow> nat list" where
  "pad_shape n s = replicate (n - length s) 1 @ s"

definition broadcast_shapes :: "nat list \<Rightarrow> nat list \<Rightarrow> error + nat list" where
  "broadcast_shapes sx sy =
     (let n = max (length sx) (length sy); px = pad_shape n sx; py = pad_shape n sy
      in if list_all2 (\<lambda>a b. a = b \<or> a = 1 \<or> b = 1) px py
         then Inr (map2 (\<lambda>a b. if a = 1 then b else a) px py)
         else Inl RuntimeError)"

definition source_index :: "nat list \<Rightarrow> nat list \<Rightarrow> nat \<Rightarrow> nat" where
  "source_index s sx i =
     (let px = pad_shape (length s) sx
      in ravel px (map2 (\<lambda>d k. if d = 1 then 0 else k) px (unravel s i)))"

definition binop :: "(real \<Rightarrow> real \<Rightarrow> real) \<Rightarrow> tensor \<Rightarrow> tensor \<Rightarrow> error + tensor" where
  "binop f x y =
     (case broadcast_shapes (shape x) (shape y) of
        Inl e \<Rightarrow> Inl e
      | Inr s \<Rightarrow> Inr \<lparr>shape = s,
                     elems = map (\<lambda>i. f (elems x ! source_index s (shape x) i)
                                        (elems y ! source_index s (shape y) i))
                                 [0..<numel s]\<rparr>)"

section \<open>The diffusion process\<close>

subsection \<open>Rescaling at the boundary\<close>

text \<open>\<^verbatim>\<open>x * 2 - 1\<close> and \<^verbatim>\<open>(x + 1) * 0.5\<close>.\<close>

definition scale_to_minus_one_to_one :: "tensor \<Rightarrow> tensor" where
  "scale_to_minus_one_to_one x = tmap (\<lambda>v. v * 2 - 1) x"

definition reverse_scale_to_zero_to_one :: "tensor \<Rightarrow> tensor" where
  "reverse_scale_to_zero_to_one x = tmap (\<lambda>v. (v + 1) * (1 / 2)) x"

subsection \<open>The schedule\<close>

text \<open>
  \<^verbatim>\<open>torch.linspace(start, end, steps)\<close>: \<open>steps\<close> points from \<open>start\<close> to \<open>end\<close>, evenly
  spaced; the single point \<open>start\<close> for one step, no point for none. A negative number of
  steps is refused.
\<close>

definition linspace :: "real \<Rightarrow> real \<Rightarrow> int \<Rightarrow> error + real list" where
  "linspace start stop steps =
     (if steps < 0 then Inl RuntimeError
      else if steps = 1 then Inr [start]
      else Inr (map (\<lambda>i. start + real i * ((stop - start) / real_of_int (steps - 1)))
                    [0..<nat steps]))"

text \<open>\<^verbatim>\<open>torch.cumprod(a, dim=0)\<close>: the running products, accumulated from the left.\<close>

fun cumprod_from :: "real \<Rightarrow> real list \<Rightarrow> real list" where
  "cumprod_from acc [] = []"
| "cumprod_from acc (x # xs) = (acc * x) # cumprod_from (acc * x) xs"

definition cumprod :: "real list \<Rightarrow> real list" where
  "cumprod xs = cumprod_from 1 xs"

text \<open>
  The state of a \<^verbatim>\<open>Diffusion\<close> object; \<open>device'\<close> is its attribute \<^verbatim>\<open>device\<close>. The denoiser
  network is an opaque function of the noisy batch and the timestep batch.
\<close>

record diffusion =
  n_times :: int
  img_H :: nat
  img_W :: nat
  img_C :: nat
  model :: "tensor \<Rightarrow> int list \<Rightarrow> tensor"
  sqrt_betas :: "real list"
  alphas :: "real list"
  sqrt_alphas :: "real list"
  sqrt_one_minus_alpha_bars :: "real list"
  sqrt_alpha_bars :: "real list"
  device' :: device

text \<open>
  \<^verbatim>\<open>Diffusion.__init__\<close>, on a host with \<open>gpus\<close> GPUs. It checks nothing about its arguments;
  its failures are the one of \<open>linspace\<close> and the one of moving the betas to the device.
  The later \<^verbatim>\<open>.to(self.device)\<close> of the other methods move to the device that the
  constructor used. For a beta outside [0, 1] a square root of the program is NaN; the
  statements below about the values of the coefficients take the betas within (0, 1).
\<close>

definition Diffusion_init ::
  "nat \<Rightarrow> (tensor \<Rightarrow> int list \<Rightarrow> tensor) \<Rightarrow> nat \<times> nat \<times> nat \<Rightarrow> int \<Rightarrow> real \<times> real \<Rightarrow> device
     \<Rightarrow> error + diffusion" where
  "Diffusion_init gpus mdl image_resolution n beta_minmax dev =
     (case image_resolution of (h, w, c) \<Rightarrow>
      case beta_minmax of (beta_1, beta_T) \<Rightarrow>
        bindE (linspace beta_1 beta_T n) (\<lambda>points.
        bindE (place_on gpus dev points) (\<lambda>betas.
          let alphas' = map (\<lambda>b. 1 - b) betas;
              alpha_bars = cumprod alphas'
          in Inr \<lparr>n_times = n, img_H = h, img_W = w, img_C = c, model = mdl,
                  sqrt_betas = map sqrt betas,
                  alphas = alphas',
                  sqrt_alphas = map sqrt alphas',
                  sqrt_one_minus_alpha_bars = map (\<lambda>a. sqrt (1 - a)) alpha_bars,
                  sqrt_alpha_bars = map sqrt alpha_bars,
                  device' = dev\<rparr>)))"

subsection \<open>Reading a coefficient per sample\<close>

text \<open>
  \<^verbatim>\<open>a.gather(-1, t)\<close> on a one-dimensional \<open>a\<close>: the entries of \<open>a\<close> at the indices \<open>t\<close>, as
  a tensor of the shape of \<open>t\<close>. An index below 0 or beyond the end is refused.
\<close>

definition gather :: "real list \<Rightarrow> int list \<Rightarrow> error + tensor" where
  "gather a t =
     (if list_all (\<lambda>i. 0 \<le> i \<and> i < int (length a)) t
      then Inr \<lparr>shape = [length t], elems = map (\<lambda>i. a ! nat i) t\<rparr>
      else Inl RuntimeError)"

definition reshape :: "tensor \<Rightarrow> nat list \<Rightarrow> error + tensor" where
  "reshape x s =
     (if numel s = length (elems x) then Inr \<lparr>shape = s, elems = elems x\<rparr>
      else Inl RuntimeError)"

text \<open>
  \<^verbatim>\<open>Diffusion.extract(a, t, x_shape)\<close>; it does not read the object. Python's
  \<^verbatim>\<open>(1,) * (len(x_shape) - 1)\<close> is the empty tuple when \<open>x_shape\<close> is empty, as the
  truncating subtraction gives here.
\<close>

definition "extract" :: "real list \<Rightarrow> int list \<Rightarrow> nat list \<Rightarrow> error + tensor" where
  "extract a t x_shape =
     (let b = length t
      in bindE (gather a t) (\<lambda>out. reshape out (b # replicate (length x_shape - 1) 1)))"

subsection \<open>Random draws\<close>

text \<open>
  \<^verbatim>\<open>torch.randn_like(x)\<close> draws one unit-Gaussian sample per element of \<open>x\<close>. The random source
  is made explicit: \<open>g i\<close> is the \<open>i\<close>-th sample the call draws, and a statement about every
  \<open>g\<close> is one about every outcome of the draw.
\<close>

definition randn_like :: "tensor \<Rightarrow> (nat \<Rightarrow> real) \<Rightarrow> tensor" where
  "randn_like x g = \<lparr>shape = shape x, elems = map g [0..<numel (shape x)]\<rparr>"

definition zeros_like :: "tensor \<Rightarrow> tensor" where
  "zeros_like x = \<lparr>shape = shape x, elems = replicate (numel (shape x)) 0\<rparr>"

subsection \<open>Forward corruption\<close>

text \<open>
  \<^verbatim>\<open>Diffusion.make_noisy(x_zeros, t)\<close>. \<^verbatim>\<open>detach()\<close> cuts the gradient graph and leaves the
  values as they are.
\<close>

definition make_noisy ::
  "diffusion \<Rightarrow> tensor \<Rightarrow> int list \<Rightarrow> (nat \<Rightarrow> real) \<Rightarrow> error + tensor \<times> tensor" where
  "make_noisy self x_zeros t g =
     (let epsilon = randn_like x_zeros g
      in bindE (extract (sqrt_alpha_bars self) t (shape x_zeros)) (\<lambda>sqrt_alpha_bar.
         bindE (extract (sqrt_one_minus_alpha_bars self) t (shape x_zeros))
           (\<lambda>sqrt_one_minus_alpha_bar.
         bindE (binop (*) x_zeros sqrt_alpha_bar) (\<lambda>signal.
         bindE (binop (*) epsilon sqrt_one_minus_alpha_bar) (\<lambda>noise.
         bindE (binop (+) signal noise) (\<lambda>noisy_sample.
         Inr (noisy_sample, epsilon)))))))"

subsection \<open>One reverse step\<close>

text \<open>\<^verbatim>\<open>x.clamp(lo, hi)\<close> on one element.\<close>

definition clamp :: "real \<Rightarrow> real \<Rightarrow> real \<Rightarrow> real" where
  "clamp lo hi v = min hi (max lo v)"

text \<open>
  \<^verbatim>\<open>Diffusion.denoise_at_t(x_t, timestep, t)\<close>: \<open>timestep\<close> is the batch of timesteps and \<open>t\<close>
  the Python integer that \<^verbatim>\<open>sample\<close> fills it with. Unpacking \<^verbatim>\<open>B, _, _, _ = x_t.shape\<close>
  fails unless \<open>x_t\<close> has four dimensions. The update is
  \<^verbatim>\<open>1 / sqrt_alpha * (x_t - (1 - alpha) / sqrt_one_minus_alpha_bar * epsilon_pred) + sqrt_beta * z\<close>.
\<close>

definition denoise_at_t ::
  "diffusion \<Rightarrow> tensor \<Rightarrow> int list \<Rightarrow> int \<Rightarrow> (nat \<Rightarrow> real) \<Rightarrow> error + tensor" where
  "denoise_at_t self x_t timestep t g =
     (if length (shape x_t) = 4 then
        let z = (if t > 1 then randn_like x_t g else zeros_like x_t);
            epsilon_pred = model self x_t timestep
        in bindE (extract (alphas self) timestep (shape x_t)) (\<lambda>alpha.
           bindE (extract (sqrt_alphas self) timestep (shape x_t)) (\<lambda>sqrt_alpha.
           bindE (extract (sqrt_one_minus_alpha_bars self) timestep (shape x_t))
             (\<lambda>sqrt_one_minus_alpha_bar.
           bindE (extract (sqrt_betas self) timestep (shape x_t)) (\<lambda>sqrt_beta.
           bindE (binop (/) (tmap (\<lambda>v. 1 - v) alpha) sqrt_one_minus_alpha_bar) (\<lambda>ratio.
           bindE (binop (*) ratio epsilon_pred) (\<lambda>predicted.
           bindE (binop (-) x_t predicted) (\<lambda>residual.
           bindE (binop (*) (tmap (\<lambda>v. 1 / v) sqrt_alpha) residual) (\<lambda>mean.
           bindE (binop (*) sqrt_beta z) (\<lambda>injected.
           bindE (binop (+) mean injected) (\<lambda>x_t_minus_1.
           Inr (tmap (clamp (-1) 1) x_t_minus_1)))))))))))
      else Inl ValueError)"

text \<open>
  The transition as the specification words it, with the injected noise \<open>z\<close> given: predict
  the noise, read the four coefficients of the step, apply the update and clamp to [-1, 1].
  It is what \<open>denoise_at_t\<close> is compared with.
\<close>

definition transition_with_noise ::
  "diffusion \<Rightarrow> tensor \<Rightarrow> int list \<Rightarrow> tensor \<Rightarrow> error + tensor" where
  "transition_with_noise self x t_batch z =
     (let eps_pred = model self x t_batch
      in bindE (extract (alphas self) t_batch (shape x)) (\<lambda>alpha.
         bindE (extract (sqrt_alphas self) t_batch (shape x)) (\<lambda>sqrt_alpha.
         bindE (extract (sqrt_one_minus_alpha_bars self) t_batch (shape x)) (\<lambda>sqrt_omab.
         bindE (extract (sqrt_betas self) t_batch (shape x)) (\<lambda>sqrt_beta.
         bindE (binop (/) (tmap (\<lambda>v. 1 - v) alpha) sqrt_omab) (\<lambda>c.
         bindE (binop (*) c eps_pred) (\<lambda>p.
         bindE (binop (-) x p) (\<lambda>r.
         bindE (binop (*) (tmap (\<lambda>v. 1 / v) sqrt_alpha) r) (\<lambda>m.
         bindE (binop (*) sqrt_beta z) (\<lambda>n.
         bindE (binop (+) m n) (\<lambda>x_next.
         Inr (tmap (clamp (-1) 1) x_next))))))))))))"

subsection \<open>A small configuration\<close>

text \<open>
  A network and an object with three-step coefficient arrays of rational numbers, chosen
  freely, on which the operations are evaluated below.
\<close>

definition demo_net :: "tensor \<Rightarrow> int list \<Rightarrow> tensor" where
  "demo_net x t = tmap (\<lambda>v. v / 4) x"

definition demo_schedule :: diffusion where
  "demo_schedule = \<lparr>n_times = 3, img_H = 1, img_W = 2, img_C = 1, model = demo_net,
     sqrt_betas = [1/2, 1/3, 1/10], alphas = [3/4, 8/9, 1/2], sqrt_alphas = [1/4, 1/5, 1/2],
     sqrt_one_minus_alpha_bars = [3/5, 4/5, 1/4], sqrt_alpha_bars = [4/5, 3/5, 1/5],
     device' = CPU\<rparr>"

text \<open>
  A stand-in for the network that returns the noise recorded by the forward process, and the
  draw in which every sample is 0.
\<close>

definition replay_net :: "tensor \<Rightarrow> tensor \<Rightarrow> int list \<Rightarrow> tensor" where
  "replay_net eps x t = eps"

definition no_noise :: "nat \<Rightarrow> real" where
  "no_noise i = 0"

text \<open>The draw whose samples are 1, 2, 3 and so on.\<close>

definition ramp :: "nat \<Rightarrow> real" where
  "ramp i = real i + 1"

text \<open>
  The object that the constructor builds on the CPU for \<open>T = 2\<close> and the betas \<open>(3/4, 8/9)\<close>.
\<close>

definition late_schedule :: diffusion where
  "late_schedule = \<lparr>n_times = 2, img_H = 1, img_W = 1, img_C = 1,
     model = replay_net \<lparr>shape = [1, 1, 1, 1], elems = [0]\<rparr>,
     sqrt_betas = [sqrt (3 / 4), sqrt (8 / 9)], alphas = [1 / 4, 1 / 9],
     sqrt_alphas = [1 / 2, 1 / 3],
     sqrt_one_minus_alpha_bars = [sqrt (3 / 4), sqrt (35 / 36)],
     sqrt_alpha_bars = [1 / 2, 1 / 6],
     device' = CPU\<rparr>"

section \<open>The structural-similarity loss\<close>

subsection \<open>The smoothing kernel\<close>

text \<open>
  \<^verbatim>\<open>gaussian_window(size, sigma)\<close>: the Gaussian at the coordinates
  \<^verbatim>\<open>arange(size) - (size - 1) / 2\<close>, divided by its sum. For \<open>sigma = 0\<close> the program divides by
  zero and the window is NaN; the model has no NaN, and the statements below take
  \<open>sigma \<noteq> 0\<close>.
\<close>

definition gaussian_window :: "nat \<Rightarrow> real \<Rightarrow> real list" where
  "gaussian_window size' sigma =
     (let coords = map (\<lambda>i. real i - (real size' - 1) / 2) [0..<size'];
          g = map (\<lambda>c. exp (- (c\<^sup>2) / (2 * sigma\<^sup>2))) coords
      in map (\<lambda>v. v / sum_list g) g)"

text \<open>
  \<^verbatim>\<open>create_window(window_size, sigma, channel)\<close>: the outer product of the window with itself,
  viewed as \<open>[1, 1, window_size, window_size]\<close> and expanded to one copy per channel.
\<close>

definition create_window :: "nat \<Rightarrow> real \<Rightarrow> nat \<Rightarrow> tensor" where
  "create_window window_size sigma channel =
     (let w1 = gaussian_window window_size sigma;
          w2 = map (\<lambda>(u, v). u * v) (List.product w1 w1)
      in \<lparr>shape = [channel, 1, window_size, window_size],
          elems = concat (replicate channel w2)\<rparr>)"

subsection \<open>Precision and device\<close>

text \<open>
  The kernel is converted to the precision and the device of the first image on every call.
  A tensor that \<^verbatim>\<open>forward\<close> receives or stores therefore carries both; \<^verbatim>\<open>.to\<close> changes
  the tag, and the values stay the real numbers they are. The device of an image that exists
  is one the host can use, so this conversion does not fail.
\<close>

datatype dtype = Float16 | BFloat16 | Float32 | Float64

record placed =
  dtype :: dtype
  device :: device
  data :: tensor

definition to_dtype :: "placed \<Rightarrow> dtype \<Rightarrow> placed" where
  "to_dtype x d = x\<lparr>dtype := d\<rparr>"

definition to_device :: "placed \<Rightarrow> device \<Rightarrow> placed" where
  "to_device x d = x\<lparr>device := d\<rparr>"

subsection \<open>Convolution\<close>

text \<open>
  \<^verbatim>\<open>F.conv2d(input, weight, padding=p, groups=g)\<close> with stride 1 and no bias. The input is
  \<open>[N, C_in, H, W]\<close> and the weight \<open>[C_out, C_in / g, kH, kW]\<close>; the input is padded with \<open>p\<close>
  zeros on every side, and output channel \<open>co\<close> reads the input channels of its group.
  \<open>padded\<close> is the padded input at a position given in padded coordinates.
\<close>

definition padded :: "tensor \<Rightarrow> nat \<Rightarrow> nat \<Rightarrow> nat \<Rightarrow> nat \<Rightarrow> nat \<Rightarrow> real" where
  "padded x p b ch i j =
     (case shape x of
        [n, cin, h, w] \<Rightarrow>
          if p \<le> i \<and> i < h + p \<and> p \<le> j \<and> j < w + p
          then elems x ! (((b * cin + ch) * h + (i - p)) * w + (j - p))
          else 0
      | _ \<Rightarrow> 0)"

definition conv2d_batch :: "tensor \<Rightarrow> tensor \<Rightarrow> nat \<Rightarrow> nat \<Rightarrow> error + tensor" where
  "conv2d_batch x wt p g =
     (case shape x of
        [n, cin, h, w] \<Rightarrow>
          (case shape wt of
             [cout, cg, kh, kw] \<Rightarrow>
               if 0 < g \<and> cin = g * cg \<and> cout mod g = 0 \<and> 0 < kh \<and> 0 < kw
                  \<and> kh \<le> h + 2 * p \<and> kw \<le> w + 2 * p
               then Inr \<lparr>shape = [n, cout, h + 2 * p - kh + 1, w + 2 * p - kw + 1],
                         elems = map (\<lambda>(b, co, i, j).
                             \<Sum>(ci, a, c) \<leftarrow> List.product [0..<cg] (List.product [0..<kh] [0..<kw]).
                               elems wt ! (((co * cg + ci) * kh + a) * kw + c)
                               * padded x p b (co div (cout div g) * cg + ci) (i + a) (j + c))
                           (List.product [0..<n] (List.product [0..<cout]
                              (List.product [0..<h + 2 * p - kh + 1] [0..<w + 2 * p - kw + 1])))\<rparr>
               else Inl RuntimeError
           | _ \<Rightarrow> Inl RuntimeError)
      | _ \<Rightarrow> Inl RuntimeError)"

text \<open>An input of three dimensions is a single unbatched image.\<close>

definition conv2d_values :: "tensor \<Rightarrow> tensor \<Rightarrow> nat \<Rightarrow> nat \<Rightarrow> error + tensor" where
  "conv2d_values x wt p g =
     (case shape x of
        [c, h, w] \<Rightarrow>
          bindE (conv2d_batch \<lparr>shape = [1, c, h, w], elems = elems x\<rparr> wt p g)
            (\<lambda>y. Inr \<lparr>shape = tl (shape y), elems = elems y\<rparr>)
      | _ \<Rightarrow> conv2d_batch x wt p g)"

text \<open>The input and the weight of a convolution must have one precision and one device.\<close>

definition conv2d :: "placed \<Rightarrow> placed \<Rightarrow> nat \<Rightarrow> nat \<Rightarrow> error + tensor" where
  "conv2d input weight padding groups =
     (if dtype input = dtype weight \<and> device input = device weight
      then conv2d_values (data input) (data weight) padding groups
      else Inl RuntimeError)"

subsection \<open>The score\<close>

text \<open>\<^verbatim>\<open>x.mean()\<close>; on an empty tensor the program gives NaN, which the model does not have.\<close>

definition mean :: "tensor \<Rightarrow> real" where
  "mean x = sum_list (elems x) / real (length (elems x))"

text \<open>The state of an \<^verbatim>\<open>SSIMLoss\<close> object; the kernel is built in single precision on the CPU.\<close>

record SSIMLoss =
  window_size :: nat
  sigma :: real
  channel :: nat
  window :: placed

definition SSIMLoss_init :: "nat \<Rightarrow> real \<Rightarrow> SSIMLoss" where
  "SSIMLoss_init ws sg =
     \<lparr>window_size = ws, sigma = sg, channel = 1,
      window = \<lparr>dtype = Float32, device = CPU, data = create_window ws sg 1\<rparr>\<rparr>"

text \<open>
  \<^verbatim>\<open>SSIMLoss.forward(img1, img2)\<close>. Its first statement assigns the converted kernel to
  \<^verbatim>\<open>self.window\<close>, so the call returns the object as it is afterwards together with the
  score or the exception. The second convolution raises unless \<open>img2\<close> has the precision and
  device of \<open>img1\<close>; from there on the two agree, and the products of images carry them.
\<close>

definition SSIMLoss_forward :: "SSIMLoss \<Rightarrow> placed \<Rightarrow> placed \<Rightarrow> (error + real) \<times> SSIMLoss" where
  "SSIMLoss_forward self img1 img2 =
     (let self' = self\<lparr>window := to_device (to_dtype (window self) (dtype img1)) (device img1)\<rparr>;
          k = window self';
          p = window_size self' div 2;
          g = channel self';
          C1 = (1 / 100)\<^sup>2;
          C2 = (3 / 100)\<^sup>2
      in (bindE (conv2d img1 k p g) (\<lambda>mu1.
          bindE (conv2d img2 k p g) (\<lambda>mu2.
          bindE (binop (*) (data img1) (data img1)) (\<lambda>sq1.
          bindE (conv2d (img1\<lparr>data := sq1\<rparr>) k p g) (\<lambda>e1.
          bindE (binop (-) e1 (tmap (\<lambda>v. v\<^sup>2) mu1)) (\<lambda>sigma1_sq.
          bindE (binop (*) (data img2) (data img2)) (\<lambda>sq2.
          bindE (conv2d (img2\<lparr>data := sq2\<rparr>) k p g) (\<lambda>e2.
          bindE (binop (-) e2 (tmap (\<lambda>v. v\<^sup>2) mu2)) (\<lambda>sigma2_sq.
          bindE (binop (*) (data img1) (data img2)) (\<lambda>sq12.
          bindE (conv2d (img1\<lparr>data := sq12\<rparr>) k p g) (\<lambda>e12.
          bindE (binop (*) mu1 mu2) (\<lambda>mu12.
          bindE (binop (-) e12 mu12) (\<lambda>sigma12.
          bindE (binop (*) (tmap (\<lambda>v. 2 * v) mu1) mu2) (\<lambda>two_mu12.
          bindE (binop (*) (tmap (\<lambda>v. v + C1) two_mu12) (tmap (\<lambda>v. 2 * v + C2) sigma12))
            (\<lambda>numerator.
          bindE (binop (+) (tmap (\<lambda>v. v\<^sup>2) mu1) (tmap (\<lambda>v. v\<^sup>2) mu2)) (\<lambda>mu_sq.
          bindE (binop (+) sigma1_sq sigma2_sq) (\<lambda>sigma_sq.
          bindE (binop (*) (tmap (\<lambda>v. v + C1) mu_sq) (tmap (\<lambda>v. v + C2) sigma_sq))
            (\<lambda>denominator.
          bindE (binop (/) numerator denominator) (\<lambda>ssim_map.
          Inr (mean (tmap (clamp 0 1) ssim_map)))))))))))))))))))),
          self'))"

text \<open>
  The windowed average that the convolution with the kernel computes at one output position
  of a single-channel batch: the sum over the taps \<open>(a, c)\<close> of the kernel weight times the
  padded input.
\<close>

definition window_sum :: "nat \<Rightarrow> real \<Rightarrow> tensor \<Rightarrow> nat \<times> nat \<times> nat \<times> nat \<Rightarrow> real" where
  "window_sum ws sg y = (\<lambda>(b, co, i, j).
     \<Sum>(a, c) \<leftarrow> List.product [0..<ws] [0..<ws].
        (gaussian_window ws sg ! a * gaussian_window ws sg ! c)
        * padded y (ws div 2) b 0 (i + a) (j + c))"

text \<open>A one-pixel image in half precision on the first GPU.\<close>

definition half_image :: placed where
  "half_image = \<lparr>dtype = Float16, device = CUDA 0, data = \<lparr>shape = [1, 1, 1, 1], elems = [1 / 2]\<rparr>\<rparr>"

section \<open>Properties\<close>

text \<open>
  Claim C10. The two rescaling operations are mutually inverse: for every tensor \<open>x\<close>,
  rescaling to [-1,1] and back, and rescaling to [0,1] and back, both give \<open>x\<close> again
  (in exact arithmetic).
\<close>

theorem rescale_inverse:
  "reverse_scale_to_zero_to_one (scale_to_minus_one_to_one x) = x
   \<and> scale_to_minus_one_to_one (reverse_scale_to_zero_to_one x) = x"
  by (simp add: reverse_scale_to_zero_to_one_def scale_to_minus_one_to_one_def tmap_def
      o_def field_simps)

subsection \<open>The coefficient extractor\<close>

lemma list_all_replicate_iff: "list_all P (replicate n x) \<longleftrightarrow> (n = 0 \<or> P x)"
  by (induction n) auto

lemma prod_list_replicate_one [simp]: "prod_list (replicate n (Suc 0)) = Suc 0"
  by (induction n) auto

text \<open>
  Claim C5. For a coefficient array \<open>coeffs\<close>, a batch size \<open>N\<close>, an index \<open>k\<close> within the
  array and a target shape of rank at least 1, \<open>extract\<close> on the constant timestep batch
  \<open>[k] * N\<close> returns the tensor of shape \<open>[N, 1, ..., 1]\<close> of that rank in which every
  sample's entry is \<open>coeffs[k]\<close>.
\<close>

theorem extract_constant_batch:
  assumes "k < length coeffs" and "1 \<le> length x_shape"
  shows "extract coeffs (replicate N (int k)) x_shape
           = Inr \<lparr>shape = N # replicate (length x_shape - 1) 1,
                  elems = replicate N (coeffs ! k)\<rparr>
         \<and> length (N # replicate (length x_shape - 1) (1::nat)) = length x_shape"
  using assms
  by (simp add: extract_def gather_def reshape_def bindE_def numel_def
      list_all_replicate_iff)

theorem extract_constant_batch_witness:
  "extract [5, 7, 9] [1, 1] [2, 1, 28, 28] = Inr \<lparr>shape = [2, 1, 1, 1], elems = [7, 7]\<rparr>"
  using extract_constant_batch [of 1 "[5, 7, 9]" "[2, 1, 28, 28]" 2]
  by (simp add: numeral_2_eq_2 numeral_3_eq_3)

subsection \<open>Broadcasting lemmas\<close>

lemma length_unravel [simp]: "length (unravel s i) = length s"
  by (induction s arbitrary: i) auto

lemma ravel_unravel: "i < prod_list s \<Longrightarrow> ravel s (unravel s i) = i"
proof (induction s arbitrary: i)
  case Nil
  then show ?case by simp
next
  case (Cons d ds)
  have pos: "0 < prod_list ds"
    using Cons.prems by (cases "prod_list ds = 0") auto
  then have "i mod prod_list ds < prod_list ds" by simp
  then have "ravel ds (unravel ds (i mod prod_list ds)) = i mod prod_list ds"
    by (rule Cons.IH)
  then show ?case by simp
qed

lemma clip_unravel:
  "i < prod_list s \<Longrightarrow> map2 (\<lambda>d k. if d = Suc 0 then 0 else k) s (unravel s i) = unravel s i"
proof (induction s arbitrary: i)
  case Nil
  then show ?case by simp
next
  case (Cons d ds)
  have pos: "0 < prod_list ds"
    using Cons.prems by (cases "prod_list ds = 0") auto
  then have "i mod prod_list ds < prod_list ds" by simp
  then have IH: "map2 (\<lambda>d k. if d = Suc 0 then 0 else k) ds (unravel ds (i mod prod_list ds))
      = unravel ds (i mod prod_list ds)"
    by (rule Cons.IH)
  have "d = Suc 0 \<Longrightarrow> i div prod_list ds = 0"
    using Cons.prems by simp
  with IH show ?case by simp
qed

lemma pad_shape_same [simp]: "pad_shape (length s) s = s"
  by (simp add: pad_shape_def)

lemma source_index_same: "i < prod_list s \<Longrightarrow> source_index s s i = i"
  by (simp add: source_index_def clip_unravel ravel_unravel)

lemma map2_keep_same: "map2 (\<lambda>a b. if a = Suc 0 then b else a) s s = s"
  by (induction s) auto

lemma broadcast_shapes_same: "broadcast_shapes s s = Inr s"
  by (simp add: broadcast_shapes_def list_all2_same map2_keep_same)

lemma map_index_map2:
  "length xs = n \<Longrightarrow> length ys = n \<Longrightarrow> map (\<lambda>i. f (xs ! i) (ys ! i)) [0..<n] = map2 f xs ys"
  by (rule nth_equalityI) auto

lemma binop_same_shape:
  assumes "shape x = shape y" "well_shaped x" "well_shaped y"
  shows "binop f x y = Inr \<lparr>shape = shape x, elems = map2 f (elems x) (elems y)\<rparr>"
proof -
  have "map (\<lambda>i. f (elems x ! source_index (shape y) (shape y) i)
                  (elems y ! source_index (shape y) (shape y) i)) [0..<numel (shape y)]
        = map (\<lambda>i. f (elems x ! i) (elems y ! i)) [0..<numel (shape y)]"
    by (rule map_cong) (auto simp: source_index_same numel_def)
  also have "\<dots> = map2 f (elems x) (elems y)"
    using assms by (intro map_index_map2) (auto simp: well_shaped_def)
  finally show ?thesis
    using assms by (simp add: binop_def broadcast_shapes_same)
qed

lemma ravel_ones:
  "ravel (replicate r (Suc 0)) (map2 (\<lambda>d k. if d = Suc 0 then 0 else k) (replicate r (Suc 0)) ks) = 0"
proof (induction r arbitrary: ks)
  case 0
  then show ?case by simp
next
  case (Suc r)
  then show ?case by (cases ks) auto
qed

lemma list_all2_ones_right: "list_all2 (\<lambda>a b. a = b \<or> a = Suc 0 \<or> b = Suc 0) ds (replicate (length ds) (Suc 0))"
  by (induction ds) auto

lemma list_all2_ones_left: "list_all2 (\<lambda>a b. a = b \<or> a = Suc 0 \<or> b = Suc 0) (replicate (length ds) (Suc 0)) ds"
  by (induction ds) auto

lemma map2_ones_right: "map2 (\<lambda>a b. if a = Suc 0 then b else a) ds (replicate (length ds) (Suc 0)) = ds"
  by (induction ds) auto

lemma map2_ones_left: "map2 (\<lambda>a b. if a = Suc 0 then b else a) (replicate (length ds) (Suc 0)) ds = ds"
  by (induction ds) auto

lemma broadcast_shapes_coeff_right:
  "broadcast_shapes (n # ds) (n # replicate (length ds) (Suc 0)) = Inr (n # ds)"
  by (simp add: broadcast_shapes_def pad_shape_def list_all2_ones_right map2_ones_right)

lemma broadcast_shapes_coeff_left:
  "broadcast_shapes (n # replicate (length ds) (Suc 0)) (n # ds) = Inr (n # ds)"
  by (simp add: broadcast_shapes_def pad_shape_def list_all2_ones_left map2_ones_left)

lemma source_index_coeff:
  assumes "i < n * prod_list ds"
  shows "source_index (n # ds) (n # replicate (length ds) (Suc 0)) i = i div prod_list ds"
proof -
  have "n = 1 \<Longrightarrow> i div prod_list ds = 0"
    using assms by simp
  then show ?thesis
    by (auto simp: source_index_def pad_shape_def ravel_ones)
qed

lemma binop_coeff_right:
  assumes "shape x = n # ds" "shape c = n # replicate (length ds) 1"
  shows "binop f x c = Inr \<lparr>shape = n # ds,
           elems = map (\<lambda>i. f (elems x ! i) (elems c ! (i div prod_list ds))) [0..<n * prod_list ds]\<rparr>"
proof -
  have "map (\<lambda>i. f (elems x ! source_index (n # ds) (n # ds) i)
                  (elems c ! source_index (n # ds) (n # replicate (length ds) 1) i))
            [0..<n * prod_list ds]
        = map (\<lambda>i. f (elems x ! i) (elems c ! (i div prod_list ds))) [0..<n * prod_list ds]"
    by (rule map_cong) (auto simp: source_index_same source_index_coeff)
  then show ?thesis
    using assms by (simp add: binop_def broadcast_shapes_coeff_right numel_def)
qed

lemma binop_coeff_left:
  assumes "shape x = n # ds" "shape c = n # replicate (length ds) 1"
  shows "binop f c x = Inr \<lparr>shape = n # ds,
           elems = map (\<lambda>i. f (elems c ! (i div prod_list ds)) (elems x ! i)) [0..<n * prod_list ds]\<rparr>"
proof -
  have "map (\<lambda>i. f (elems c ! source_index (n # ds) (n # replicate (length ds) 1) i)
                  (elems x ! source_index (n # ds) (n # ds) i))
            [0..<n * prod_list ds]
        = map (\<lambda>i. f (elems c ! (i div prod_list ds)) (elems x ! i)) [0..<n * prod_list ds]"
    by (rule map_cong) (auto simp: source_index_same source_index_coeff)
  then show ?thesis
    using assms by (simp add: binop_def broadcast_shapes_coeff_left numel_def)
qed

subsection \<open>Forward corruption\<close>

lemma extract_valid:
  assumes "list_all (\<lambda>k. 0 \<le> k \<and> k < int (length a)) t"
  shows "extract a t sh = Inr \<lparr>shape = length t # replicate (length sh - 1) 1,
                                elems = map (\<lambda>k. a ! nat k) t\<rparr>"
  using assms by (simp add: extract_def gather_def reshape_def bindE_def numel_def)

lemma well_shaped_index_map [simp]:
  "well_shaped \<lparr>shape = s, elems = map f [0..<prod_list s]\<rparr>"
  by (simp add: well_shaped_def numel_def)

lemma make_noisy_value:
  assumes shaped: "well_shaped x" "shape x = n # ds"
    and batch: "length t = n"
    and valid: "list_all (\<lambda>k. 0 \<le> k \<and> k < int T) t"
    and sched: "length (sqrt_alpha_bars self) = T" "length (sqrt_one_minus_alpha_bars self) = T"
  shows "make_noisy self x t g
           = Inr (\<lparr>shape = shape x,
                   elems = map (\<lambda>i. elems x ! i * sqrt_alpha_bars self ! nat (t ! (i div prod_list ds))
                                   + g i * sqrt_one_minus_alpha_bars self ! nat (t ! (i div prod_list ds)))
                               [0..<numel (shape x)]\<rparr>,
                  randn_like x g)"
proof -
  let ?m = "prod_list ds"
  let ?ab = "\<lparr>shape = n # replicate (length ds) 1, elems = map (\<lambda>k. sqrt_alpha_bars self ! nat k) t\<rparr>"
  let ?om = "\<lparr>shape = n # replicate (length ds) 1,
              elems = map (\<lambda>k. sqrt_one_minus_alpha_bars self ! nat k) t\<rparr>"
  let ?eps = "randn_like x g"
  let ?sig = "\<lparr>shape = n # ds, elems = map (\<lambda>i. elems x ! i * elems ?ab ! (i div ?m)) [0..<n * ?m]\<rparr>"
  let ?noi = "\<lparr>shape = n # ds, elems = map (\<lambda>i. elems ?eps ! i * elems ?om ! (i div ?m)) [0..<n * ?m]\<rparr>"
  have e1: "extract (sqrt_alpha_bars self) t (shape x) = Inr ?ab"
    using valid sched batch shaped by (simp add: extract_valid)
  have e2: "extract (sqrt_one_minus_alpha_bars self) t (shape x) = Inr ?om"
    using valid sched batch shaped by (simp add: extract_valid)
  have b1: "binop (*) x ?ab = Inr ?sig"
    using shaped by (intro binop_coeff_right) simp_all
  have b2: "binop (*) ?eps ?om = Inr ?noi"
    using shaped by (intro binop_coeff_right) (simp_all add: randn_like_def)
  have b3: "binop (+) ?sig ?noi = Inr \<lparr>shape = n # ds, elems = map2 (+) (elems ?sig) (elems ?noi)\<rparr>"
    using binop_same_shape [of ?sig ?noi "(+)"] by (simp add: well_shaped_def numel_def)
  have div_lt: "i div ?m < n" if "i < n * ?m" for i
    using that by (simp add: less_mult_imp_div_less)
  have el: "map2 (+) (elems ?sig) (elems ?noi)
      = map (\<lambda>i. elems x ! i * sqrt_alpha_bars self ! nat (t ! (i div ?m))
                + g i * sqrt_one_minus_alpha_bars self ! nat (t ! (i div ?m))) [0..<n * ?m]"
    using batch shaped by (intro nth_equalityI) (simp_all add: randn_like_def numel_def div_lt)
  show ?thesis
    unfolding make_noisy_def Let_def e1 e2 bindE_def
    using b1 b2 b3 el shaped by (simp add: numel_def)
qed

text \<open>
  Claim C1. For an image batch \<open>x\<close> and a timestep batch \<open>t\<close> with one entry per sample, each
  in \<open>[0, T)\<close>, \<open>make_noisy\<close> returns the pair \<open>(noisy, epsilon)\<close>: \<open>epsilon\<close> is the drawn
  noise, and each element of \<open>noisy\<close> is the element of \<open>x\<close> times \<open>sqrt_alpha_bar\<close> at its
  sample's timestep plus the element of \<open>epsilon\<close> times \<open>sqrt_one_minus_alpha_bar\<close> at that
  timestep. Element \<open>i\<close> belongs to sample \<open>i div prod_list ds\<close>.
\<close>

theorem make_noisy_formula:
  assumes shaped: "well_shaped x" "shape x = n # ds"
    and batch: "length t = n"
    and valid: "list_all (\<lambda>k. 0 \<le> k \<and> k < int T) t"
    and sched: "length (sqrt_alpha_bars self) = T" "length (sqrt_one_minus_alpha_bars self) = T"
  shows "make_noisy self x t g
           = Inr (\<lparr>shape = shape x,
                   elems = map (\<lambda>i. elems x ! i * sqrt_alpha_bars self ! nat (t ! (i div prod_list ds))
                                   + g i * sqrt_one_minus_alpha_bars self ! nat (t ! (i div prod_list ds)))
                               [0..<numel (shape x)]\<rparr>,
                  randn_like x g)"
  using assms by (rule make_noisy_value)

theorem make_noisy_formula_witness:
  "make_noisy demo_schedule \<lparr>shape = [2, 1, 1, 2], elems = [1, -1, 1/2, 0]\<rparr> [0, 1] real
     = Inr (\<lparr>shape = [2, 1, 1, 2], elems = [4/5, -1/5, 19/10, 12/5]\<rparr>,
            \<lparr>shape = [2, 1, 1, 2], elems = [0, 1, 2, 3]\<rparr>)"
  using make_noisy_formula [of "\<lparr>shape = [2, 1, 1, 2], elems = [1, -1, 1/2, 0]\<rparr>" 2 "[1, 1, 2]"
      "[0, 1]" 3 demo_schedule real]
  by (simp add: well_shaped_def numel_def demo_schedule_def randn_like_def upt_rec)

subsection \<open>The reverse step\<close>

lemma well_shaped_coeff [simp]:
  "well_shaped \<lparr>shape = length t # replicate r (Suc 0), elems = map f t\<rparr>"
  by (simp add: well_shaped_def numel_def)

lemma transition_formula:
  assumes shaped: "well_shaped x" "shape x = n # ds"
    and batch: "length ts = n"
    and valid: "list_all (\<lambda>k. 0 \<le> k \<and> k < int T) ts"
    and sched: "length (alphas self) = T" "length (sqrt_alphas self) = T"
      "length (sqrt_one_minus_alpha_bars self) = T" "length (sqrt_betas self) = T"
    and net: "shape (model self x ts) = shape x"
    and noise: "shape z = shape x"
  shows "transition_with_noise self x ts z
           = Inr \<lparr>shape = shape x,
                  elems = map (\<lambda>i. clamp (-1) 1
                      (1 / sqrt_alphas self ! nat (ts ! (i div prod_list ds))
                         * (elems x ! i
                            - (1 - alphas self ! nat (ts ! (i div prod_list ds)))
                                / sqrt_one_minus_alpha_bars self ! nat (ts ! (i div prod_list ds))
                              * elems (model self x ts) ! i)
                       + sqrt_betas self ! nat (ts ! (i div prod_list ds)) * elems z ! i))
                    [0..<numel (shape x)]\<rparr>"
proof -
  let ?m = "prod_list ds"
  let ?r = "length ds"
  let ?e = "model self x ts"
  let ?coef = "\<lambda>a. \<lparr>shape = n # replicate ?r 1, elems = map (\<lambda>k. a ! nat k) ts\<rparr>"
  let ?al = "?coef (alphas self)" and ?sa = "?coef (sqrt_alphas self)"
  let ?om = "?coef (sqrt_one_minus_alpha_bars self)" and ?sb = "?coef (sqrt_betas self)"
  let ?ratio = "\<lparr>shape = n # replicate ?r 1,
                 elems = map2 (/) (elems (tmap (\<lambda>v. 1 - v) ?al)) (elems ?om)\<rparr>"
  let ?pred = "\<lparr>shape = n # ds, elems = map (\<lambda>i. elems ?ratio ! (i div ?m) * elems ?e ! i) [0..<n * ?m]\<rparr>"
  let ?res = "\<lparr>shape = n # ds, elems = map2 (-) (elems x) (elems ?pred)\<rparr>"
  let ?mean = "\<lparr>shape = n # ds,
                elems = map (\<lambda>i. elems (tmap (\<lambda>v. 1 / v) ?sa) ! (i div ?m) * elems ?res ! i) [0..<n * ?m]\<rparr>"
  let ?inj = "\<lparr>shape = n # ds, elems = map (\<lambda>i. elems ?sb ! (i div ?m) * elems z ! i) [0..<n * ?m]\<rparr>"
  let ?next = "\<lparr>shape = n # ds, elems = map2 (+) (elems ?mean) (elems ?inj)\<rparr>"
  have e: "extract (alphas self) ts (shape x) = Inr ?al"
    "extract (sqrt_alphas self) ts (shape x) = Inr ?sa"
    "extract (sqrt_one_minus_alpha_bars self) ts (shape x) = Inr ?om"
    "extract (sqrt_betas self) ts (shape x) = Inr ?sb"
    using valid sched batch shaped by (simp_all add: extract_valid)
  have b1: "binop (/) (tmap (\<lambda>v. 1 - v) ?al) ?om = Inr ?ratio"
    using batch binop_same_shape [of "tmap (\<lambda>v. 1 - v) ?al" ?om "(/)"]
    by (simp add: tmap_def well_shaped_def numel_def)
  have b2: "binop (*) ?ratio ?e = Inr ?pred"
    using shaped net by (intro binop_coeff_left) simp_all
  have b3: "binop (-) x ?pred = Inr ?res"
    using shaped binop_same_shape [of x ?pred "(-)"] by (simp add: well_shaped_def numel_def)
  have b4: "binop (*) (tmap (\<lambda>v. 1 / v) ?sa) ?res = Inr ?mean"
    by (intro binop_coeff_left) (simp_all add: tmap_def)
  have b5: "binop (*) ?sb z = Inr ?inj"
    using shaped noise by (intro binop_coeff_left) simp_all
  have b6: "binop (+) ?mean ?inj = Inr ?next"
    using binop_same_shape [of ?mean ?inj "(+)"] by (simp add: well_shaped_def numel_def)
  have div_lt: "i div ?m < n" if "i < n * ?m" for i
    using that by (simp add: less_mult_imp_div_less)
  have len: "length (elems x) = n * ?m"
    using shaped by (simp add: well_shaped_def numel_def)
  have el: "map (clamp (-1) 1) (elems ?next)
      = map (\<lambda>i. clamp (-1) 1
                      (1 / sqrt_alphas self ! nat (ts ! (i div ?m))
                         * (elems x ! i
                            - (1 - alphas self ! nat (ts ! (i div ?m)))
                                / sqrt_one_minus_alpha_bars self ! nat (ts ! (i div ?m))
                              * elems ?e ! i)
                       + sqrt_betas self ! nat (ts ! (i div ?m)) * elems z ! i))
                    [0..<n * ?m]"
    using batch len by (intro nth_equalityI) (simp_all add: tmap_def div_lt)
  have "transition_with_noise self x ts z = Inr (tmap (clamp (-1) 1) ?next)"
    unfolding transition_with_noise_def Let_def e bindE_def
    using b1 b2 b3 b4 b5 b6 by simp
  then show ?thesis
    using el shaped by (simp add: tmap_def numel_def)
qed

lemma denoise_at_t_value:
  assumes shaped: "well_shaped x" "shape x = [n, c, h, w]"
    and step: "0 \<le> t" "t < int T"
    and sched: "length (alphas self) = T" "length (sqrt_alphas self) = T"
      "length (sqrt_one_minus_alpha_bars self) = T" "length (sqrt_betas self) = T"
    and net: "shape (model self x (replicate n t)) = shape x"
  shows "denoise_at_t self x (replicate n t) t g
           = Inr \<lparr>shape = shape x,
                  elems = map (\<lambda>i. clamp (-1) 1
                      (1 / sqrt_alphas self ! nat t
                         * (elems x ! i
                            - (1 - alphas self ! nat t) / sqrt_one_minus_alpha_bars self ! nat t
                              * elems (model self x (replicate n t)) ! i)
                       + sqrt_betas self ! nat t
                         * elems (if 1 < t then randn_like x g else zeros_like x) ! i))
                    [0..<numel (shape x)]\<rparr>"
proof -
  let ?ts = "replicate n t"
  let ?z = "if 1 < t then randn_like x g else zeros_like x"
  let ?m = "prod_list [c, h, w]"
  have z: "shape ?z = shape x"
    by (simp add: randn_like_def zeros_like_def)
  have valid: "list_all (\<lambda>k. 0 \<le> k \<and> k < int T) ?ts"
    using step by (simp add: list_all_replicate_iff)
  have "denoise_at_t self x ?ts t g = transition_with_noise self x ?ts ?z"
    using shaped by (simp add: denoise_at_t_def transition_with_noise_def Let_def)
  also have "\<dots> = Inr \<lparr>shape = shape x,
                  elems = map (\<lambda>i. clamp (-1) 1
                      (1 / sqrt_alphas self ! nat (?ts ! (i div ?m))
                         * (elems x ! i
                            - (1 - alphas self ! nat (?ts ! (i div ?m)))
                                / sqrt_one_minus_alpha_bars self ! nat (?ts ! (i div ?m))
                              * elems (model self x ?ts) ! i)
                       + sqrt_betas self ! nat (?ts ! (i div ?m)) * elems ?z ! i))
                    [0..<numel (shape x)]\<rparr>"
    using shaped valid sched net z by (intro transition_formula) simp_all
  also have "\<dots> = Inr \<lparr>shape = shape x,
                  elems = map (\<lambda>i. clamp (-1) 1
                      (1 / sqrt_alphas self ! nat t
                         * (elems x ! i
                            - (1 - alphas self ! nat t) / sqrt_one_minus_alpha_bars self ! nat t
                              * elems (model self x ?ts) ! i)
                       + sqrt_betas self ! nat t * elems ?z ! i))
                    [0..<numel (shape x)]\<rparr>"
  proof -
    have "?ts ! (i div ?m) = t" if "i < numel (shape x)" for i
    proof -
      have "i < n * ?m" using that shaped by (simp add: numel_def)
      then have "i div ?m < n" by (rule less_mult_imp_div_less)
      then show ?thesis by simp
    qed
    then show ?thesis by (auto intro!: map_cong)
  qed
  finally show ?thesis .
qed



lemma denoise_at_t_noise_term:
  assumes shaped: "well_shaped x" "shape x = [n, c, h, w]"
    and step: "0 \<le> t" "t < int T"
    and sched: "length (alphas self) = T" "length (sqrt_alphas self) = T"
      "length (sqrt_one_minus_alpha_bars self) = T" "length (sqrt_betas self) = T"
    and net: "shape (model self x (replicate n t)) = shape x"
  shows "denoise_at_t self x (replicate n t) t g
           = Inr \<lparr>shape = shape x,
                  elems = map (\<lambda>i. clamp (-1) 1
                      (1 / sqrt_alphas self ! nat t
                         * (elems x ! i
                            - (1 - alphas self ! nat t) / sqrt_one_minus_alpha_bars self ! nat t
                              * elems (model self x (replicate n t)) ! i)
                       + sqrt_betas self ! nat t * (if 1 < t then g i else 0)))
                    [0..<numel (shape x)]\<rparr>"
proof -
  have "elems (if 1 < t then randn_like x g else zeros_like x) ! i = (if 1 < t then g i else 0)"
    if "i < numel (shape x)" for i
    using that by (simp add: randn_like_def zeros_like_def)
  then have "map (\<lambda>i. clamp (-1) 1
                      (1 / sqrt_alphas self ! nat t
                         * (elems x ! i
                            - (1 - alphas self ! nat t) / sqrt_one_minus_alpha_bars self ! nat t
                              * elems (model self x (replicate n t)) ! i)
                       + sqrt_betas self ! nat t
                         * elems (if 1 < t then randn_like x g else zeros_like x) ! i))
                    [0..<numel (shape x)]
      = map (\<lambda>i. clamp (-1) 1
                      (1 / sqrt_alphas self ! nat t
                         * (elems x ! i
                            - (1 - alphas self ! nat t) / sqrt_one_minus_alpha_bars self ! nat t
                              * elems (model self x (replicate n t)) ! i)
                       + sqrt_betas self ! nat t * (if 1 < t then g i else 0)))
                    [0..<numel (shape x)]"
    by (intro map_cong) simp_all
  then show ?thesis
    using denoise_at_t_value [OF shaped step sched net, of g] by simp
qed

text \<open>
  Claim C4. In a reverse-sampling transition at the scalar timestep \<open>t\<close> the injected noise
  \<open>z\<close> is the unit-Gaussian draw when \<open>t > 1\<close> and otherwise the tensor of the shape of \<open>x\<close>
  whose elements are all 0, so the transitions at \<open>t = 1\<close> and \<open>t = 0\<close> do not depend on the
  random source. Element by element, the update adds \<open>sqrt_beta[t]\<close> times the drawn sample
  when \<open>t > 1\<close> and \<open>sqrt_beta[t]\<close> times 0 otherwise.
\<close>

theorem noise_injected_iff_after_step_one:
  "denoise_at_t self x ts t g
     = (if length (shape x) = 4
        then transition_with_noise self x ts
               \<lparr>shape = shape x,
                elems = (if 1 < t then map g [0..<numel (shape x)]
                         else replicate (numel (shape x)) 0)\<rparr>
        else Inl ValueError)
   \<and> denoise_at_t self x ts 1 g = denoise_at_t self x ts 1 g'
   \<and> denoise_at_t self x ts 0 g = denoise_at_t self x ts 0 g'
   \<and> (well_shaped x \<and> shape x = [n, c, h, w] \<and> 0 \<le> t \<and> t < int T
        \<and> length (alphas self) = T \<and> length (sqrt_alphas self) = T
        \<and> length (sqrt_one_minus_alpha_bars self) = T \<and> length (sqrt_betas self) = T
        \<and> shape (model self x (replicate n t)) = shape x
        \<and> sqrt_alphas self ! nat t \<noteq> 0 \<and> sqrt_one_minus_alpha_bars self ! nat t \<noteq> 0
      \<longrightarrow> denoise_at_t self x (replicate n t) t g
           = Inr \<lparr>shape = shape x,
                  elems = map (\<lambda>i. clamp (-1) 1
                      (1 / sqrt_alphas self ! nat t
                         * (elems x ! i
                            - (1 - alphas self ! nat t) / sqrt_one_minus_alpha_bars self ! nat t
                              * elems (model self x (replicate n t)) ! i)
                       + sqrt_betas self ! nat t * (if 1 < t then g i else 0)))
                    [0..<numel (shape x)]\<rparr>)"
proof -
  have "denoise_at_t self x ts t g
     = (if length (shape x) = 4
        then transition_with_noise self x ts
               \<lparr>shape = shape x,
                elems = (if 1 < t then map g [0..<numel (shape x)]
                         else replicate (numel (shape x)) 0)\<rparr>
        else Inl ValueError)"
    by (simp add: denoise_at_t_def transition_with_noise_def Let_def randn_like_def
        zeros_like_def)
  moreover have "denoise_at_t self x ts 1 g = denoise_at_t self x ts 1 g'"
    "denoise_at_t self x ts 0 g = denoise_at_t self x ts 0 g'"
    by (simp_all add: denoise_at_t_def Let_def)
  ultimately show ?thesis
    using denoise_at_t_noise_term [of x n c h w t T self g] by blast
qed

theorem noise_injected_iff_after_step_one_witness:
  "denoise_at_t demo_schedule \<lparr>shape = [1, 1, 1, 2], elems = [1 / 5, 0]\<rparr> [1] 1 ramp
     = Inr \<lparr>shape = [1, 1, 1, 2], elems = [139 / 144, 0]\<rparr>
   \<and> transition_with_noise demo_schedule \<lparr>shape = [1, 1, 1, 2], elems = [1 / 5, 0]\<rparr> [1]
         \<lparr>shape = [1, 1, 1, 2], elems = [1, 2]\<rparr>
     = Inr \<lparr>shape = [1, 1, 1, 2], elems = [1, 2 / 3]\<rparr>
   \<and> denoise_at_t demo_schedule \<lparr>shape = [1, 1, 1, 2], elems = [1 / 5, 0]\<rparr> [2] 2 ramp
     = Inr \<lparr>shape = [1, 1, 1, 2], elems = [3 / 10, 1 / 5]\<rparr>
   \<and> denoise_at_t demo_schedule \<lparr>shape = [1, 1, 1, 2], elems = [1 / 5, 0]\<rparr> [2] 2 no_noise
     = Inr \<lparr>shape = [1, 1, 1, 2], elems = [1 / 5, 0]\<rparr>"
proof -
  let ?x = "\<lparr>shape = [1, 1, 1, 2], elems = [1 / 5, 0 :: real]\<rparr>"
  have one: "denoise_at_t demo_schedule ?x [1] 1 ramp
      = Inr \<lparr>shape = [1, 1, 1, 2], elems = [139 / 144, 0]\<rparr>"
    using noise_injected_iff_after_step_one [of demo_schedule ?x "[1]" 1 ramp ramp 1 1 1 2 3,
        THEN conjunct2, THEN conjunct2, THEN conjunct2]
    by (simp add: well_shaped_def numel_def demo_schedule_def demo_net_def tmap_def clamp_def
        upt_rec)
  have two: "denoise_at_t demo_schedule ?x [2] 2 ramp
      = Inr \<lparr>shape = [1, 1, 1, 2], elems = [3 / 10, 1 / 5]\<rparr>"
    using noise_injected_iff_after_step_one [of demo_schedule ?x "[2]" 2 ramp ramp 1 1 1 2 3,
        THEN conjunct2, THEN conjunct2, THEN conjunct2]
    by (simp add: well_shaped_def numel_def demo_schedule_def demo_net_def tmap_def clamp_def
        ramp_def upt_rec)
  have none: "denoise_at_t demo_schedule ?x [2] 2 no_noise
      = Inr \<lparr>shape = [1, 1, 1, 2], elems = [1 / 5, 0]\<rparr>"
    using noise_injected_iff_after_step_one [of demo_schedule ?x "[2]" 2 no_noise no_noise
        1 1 1 2 3,
        THEN conjunct2, THEN conjunct2, THEN conjunct2]
    by (simp add: well_shaped_def numel_def demo_schedule_def demo_net_def tmap_def clamp_def
        no_noise_def upt_rec)
  have other: "transition_with_noise demo_schedule ?x [1]
         \<lparr>shape = [1, 1, 1, 2], elems = [1, 2]\<rparr>
     = Inr \<lparr>shape = [1, 1, 1, 2], elems = [1, 2 / 3]\<rparr>"
    using transition_formula [of ?x 1 "[1, 1, 2]" "[1]" 3 demo_schedule
        "\<lparr>shape = [1, 1, 1, 2], elems = [1, 2]\<rparr>"]
    by (simp add: well_shaped_def numel_def demo_schedule_def demo_net_def tmap_def clamp_def
        upt_rec)
  from one other two none show ?thesis by blast
qed

subsection \<open>The schedule\<close>

lemma length_cumprod_from [simp]: "length (cumprod_from acc xs) = length xs"
  by (induction xs arbitrary: acc) auto

lemma cumprod_from_nth:
  "i < length xs \<Longrightarrow> cumprod_from acc xs ! i = acc * prod_list (take (Suc i) xs)"
proof (induction xs arbitrary: acc i)
  case Nil
  then show ?case by simp
next
  case (Cons x xs)
  show ?case
  proof (cases i)
    case 0
    then show ?thesis by simp
  next
    case (Suc j)
    with Cons.prems have "j < length xs" by simp
    then have "cumprod_from (acc * x) xs ! j = acc * x * prod_list (take (Suc j) xs)"
      by (rule Cons.IH)
    with Suc show ?thesis by (simp add: mult.assoc)
  qed
qed

lemma cumprod_nth: "i < length xs \<Longrightarrow> cumprod xs ! i = prod_list (take (Suc i) xs)"
  by (simp add: cumprod_def cumprod_from_nth)

lemma length_cumprod [simp]: "length (cumprod xs) = length xs"
  by (simp add: cumprod_def)

lemma prod_list_unit_interval:
  fixes xs :: "real list"
  assumes "\<forall>x\<in>set xs. 0 \<le> x \<and> x \<le> 1"
  shows "0 \<le> prod_list xs \<and> prod_list xs \<le> 1"
  using assms by (induction xs) (auto intro: mult_le_one)

lemma linspace_points:
  assumes "0 \<le> steps"
  shows "\<exists>bs. linspace start stop steps = Inr bs \<and> length bs = nat steps
           \<and> (\<forall>i<nat steps. bs ! i = (if steps = 1 then start
                 else start + real i * ((stop - start) / real_of_int (steps - 1))))"
  using assms by (auto simp: linspace_def)

lemma linspace_point_bounds:
  fixes start stop :: real
  assumes "start \<le> stop" "2 \<le> steps" "i < nat steps"
  shows "start \<le> start + real i * ((stop - start) / real_of_int (steps - 1))"
    and "start + real i * ((stop - start) / real_of_int (steps - 1)) \<le> stop"
proof -
  let ?d = "real_of_int (steps - 1)"
  have d: "0 < ?d" using assms by simp
  have i: "real i \<le> ?d" using assms by simp
  have "0 \<le> real i * ((stop - start) / ?d)"
    using assms d by simp
  then show "start \<le> start + real i * ((stop - start) / ?d)" by simp
  have "real i * ((stop - start) / ?d) = (real i / ?d) * (stop - start)" by simp
  also have "\<dots> \<le> 1 * (stop - start)"
    using assms d i by (intro mult_right_mono) simp_all
  finally show "start + real i * ((stop - start) / ?d) \<le> stop" by simp
qed

lemma linspace_bounds:
  assumes "start \<le> stop" "1 \<le> steps"
  shows "\<exists>bs. linspace start stop steps = Inr bs \<and> length bs = nat steps
           \<and> (\<forall>b\<in>set bs. start \<le> b \<and> b \<le> stop) \<and> bs ! 0 = start"
proof -
  obtain bs where bs: "linspace start stop steps = Inr bs" "length bs = nat steps"
    and pts: "\<forall>i<nat steps. bs ! i = (if steps = 1 then start
                 else start + real i * ((stop - start) / real_of_int (steps - 1)))"
    using linspace_points [of steps start stop] assms by auto
  have "start \<le> bs ! i \<and> bs ! i \<le> stop" if "i < nat steps" for i
  proof (cases "steps = 1")
    case True
    with pts that assms show ?thesis by simp
  next
    case False
    with assms have "2 \<le> steps" by simp
    from linspace_point_bounds [OF assms(1) this that] pts that False
    show ?thesis by simp
  qed
  then have "\<forall>b\<in>set bs. start \<le> b \<and> b \<le> stop"
    using bs by (auto simp: in_set_conv_nth)
  moreover have "bs ! 0 = start"
    using pts assms by simp
  ultimately show ?thesis using bs by blast
qed

lemma Diffusion_init_schedule:
  assumes "linspace beta_1 beta_T n = Inr betas" and "usable gpus dev"
  shows "Diffusion_init gpus mdl res n (beta_1, beta_T) dev
           = Inr \<lparr>n_times = n, img_H = fst res, img_W = fst (snd res), img_C = snd (snd res),
                  model = mdl,
                  sqrt_betas = map sqrt betas,
                  alphas = map (\<lambda>b. 1 - b) betas,
                  sqrt_alphas = map sqrt (map (\<lambda>b. 1 - b) betas),
                  sqrt_one_minus_alpha_bars = map (\<lambda>a. sqrt (1 - a)) (cumprod (map (\<lambda>b. 1 - b) betas)),
                  sqrt_alpha_bars = map sqrt (cumprod (map (\<lambda>b. 1 - b) betas)),
                  device' = dev\<rparr>"
  using assms by (simp add: Diffusion_init_def place_on_def bindE_def Let_def split: prod.splits)

lemma alpha_bar_unit_interval:
  assumes "\<forall>b\<in>set betas. 0 \<le> b \<and> b \<le> (1::real)" "t < length betas"
  shows "0 \<le> cumprod (map (\<lambda>b. 1 - b) betas) ! t \<and> cumprod (map (\<lambda>b. 1 - b) betas) ! t \<le> 1"
proof -
  have "\<forall>a\<in>set (take (Suc t) (map (\<lambda>b. 1 - b) betas)). 0 \<le> a \<and> a \<le> 1"
    using assms(1) by (auto dest!: in_set_takeD)
  then show ?thesis
    using assms(2) prod_list_unit_interval by (simp add: cumprod_nth)
qed

text \<open>
  Claim C6. For every valid triple \<open>0 < beta_min < beta_max < 1\<close>, \<open>T \<ge> 1\<close>, the constructor
  builds a schedule on a device that the host can use, and
  \<open>sqrt_alpha_bar[t]\<^sup>2 + sqrt_one_minus_alpha_bar[t]\<^sup>2 = 1\<close> for every \<open>t\<close> in \<open>[0, T)\<close> (in exact
  arithmetic).
\<close>

theorem schedule_unit_norm:
  assumes "0 < beta_min" "beta_min < beta_max" "beta_max < 1" "1 \<le> T"
    and "usable gpus dev"
  shows "\<exists>S. Diffusion_init gpus mdl res T (beta_min, beta_max) dev = Inr S
           \<and> length (sqrt_alpha_bars S) = nat T
           \<and> length (sqrt_one_minus_alpha_bars S) = nat T
           \<and> (\<forall>t<nat T. (sqrt_alpha_bars S ! t)\<^sup>2 + (sqrt_one_minus_alpha_bars S ! t)\<^sup>2 = 1)"
proof -
  obtain betas where betas: "linspace beta_min beta_max T = Inr betas" "length betas = nat T"
    and range: "\<forall>b\<in>set betas. beta_min \<le> b \<and> b \<le> beta_max"
    using linspace_bounds [of beta_min beta_max T] assms by auto
  let ?ab = "cumprod (map (\<lambda>b. 1 - b) betas)"
  have unit: "\<forall>b\<in>set betas. 0 \<le> b \<and> b \<le> 1"
    using range assms by fastforce
  have "(sqrt (?ab ! t))\<^sup>2 + (sqrt (1 - ?ab ! t))\<^sup>2 = 1" if "t < nat T" for t
    using alpha_bar_unit_interval [OF unit, of t] that betas by simp
  then show ?thesis
    using betas assms(5) by (simp add: Diffusion_init_schedule)
qed

theorem schedule_unit_norm_witness:
  "\<exists>S. Diffusion_init 1 demo_net (28, 28, 1) 1000 (1 / 10000, 1 / 50) (CUDA 0) = Inr S
     \<and> (sqrt_alpha_bars S ! 999)\<^sup>2 + (sqrt_one_minus_alpha_bars S ! 999)\<^sup>2 = 1"
  using schedule_unit_norm [of "1 / 10000" "1 / 50" 1000 1 "CUDA 0" demo_net "(28, 28, 1)"]
  by (auto simp: usable_def)

text \<open>
  Claim C7, as the specification states it, fails: the constructor checks none of the
  constraints. On the CPU it builds a schedule for \<open>T = 0\<close>, and for \<open>beta_min > beta_max\<close>.
\<close>

theorem init_accepts_invalid_hyperparameters:
  "Diffusion_init 0 demo_net (28, 28, 1) 0 (1 / 10000, 1 / 50) CPU
     = Inr \<lparr>n_times = 0, img_H = 28, img_W = 28, img_C = 1, model = demo_net,
            sqrt_betas = [], alphas = [], sqrt_alphas = [],
            sqrt_one_minus_alpha_bars = [], sqrt_alpha_bars = [], device' = CPU\<rparr>
   \<and> \<not> isl (Diffusion_init 0 demo_net (28, 28, 1) 3 (1 / 2, 1 / 5) CPU)"
  by (simp add: Diffusion_init_def linspace_def place_on_def usable_def bindE_def cumprod_def
      Let_def)

text \<open>
  Claim C7, amended. Schedule construction validates none of its hyperparameters: it raises
  \<^verbatim>\<open>RuntimeError\<close> exactly when \<open>T\<close> is negative (the error of \<open>linspace\<close>) or the host cannot use
  the requested device (the error of \<^verbatim>\<open>.to(device)\<close>), and for every other input, valid or
  not, it returns a schedule for that device whose arrays have \<open>T\<close> entries. Being a function
  of its arguments and the host, it is deterministic and has no side effect.
\<close>

theorem init_fails_iff_negative_steps_or_unusable_device:
  "(Diffusion_init gpus mdl res T (beta_min, beta_max) dev = Inl e)
     = (\<not> (0 \<le> T \<and> usable gpus dev) \<and> e = RuntimeError)
   \<and> (\<exists>S. Diffusion_init gpus mdl res T (beta_min, beta_max) dev = Inr S
          \<and> n_times S = T \<and> device' S = dev
          \<and> length (sqrt_betas S) = nat T \<and> length (alphas S) = nat T
          \<and> length (sqrt_alphas S) = nat T \<and> length (sqrt_one_minus_alpha_bars S) = nat T
          \<and> length (sqrt_alpha_bars S) = nat T) = (0 \<le> T \<and> usable gpus dev)"
proof (cases "0 \<le> T")
  case False
  then show ?thesis
    by (auto simp: Diffusion_init_def linspace_def bindE_def split: prod.splits)
next
  case True
  then obtain betas where betas: "linspace beta_min beta_max T = Inr betas" "length betas = nat T"
    using linspace_points [of T beta_min beta_max] by auto
  show ?thesis
  proof (cases "usable gpus dev")
    case True
    with \<open>0 \<le> T\<close> betas show ?thesis
      by (simp add: Diffusion_init_schedule)
  next
    case False
    with betas show ?thesis
      by (auto simp: Diffusion_init_def place_on_def bindE_def split: prod.splits)
  qed
qed

theorem init_fails_iff_negative_steps_or_unusable_device_witness:
  "Diffusion_init 0 demo_net (28, 28, 1) 1000 (1 / 10000, 1 / 50) (CUDA 0) = Inl RuntimeError
   \<and> Diffusion_init 1 demo_net (28, 28, 1) (- 1) (1 / 10000, 1 / 50) (CUDA 0) = Inl RuntimeError
   \<and> (\<exists>S. Diffusion_init 1 demo_net (28, 28, 1) 1000 (1 / 10000, 1 / 50) (CUDA 0) = Inr S
          \<and> n_times S = 1000 \<and> device' S = CUDA 0 \<and> length (alphas S) = 1000)"
  using init_fails_iff_negative_steps_or_unusable_device
      [of 0 demo_net "(28, 28, 1)" 1000 "1 / 10000" "1 / 50" "CUDA 0" RuntimeError]
    init_fails_iff_negative_steps_or_unusable_device
      [of 1 demo_net "(28, 28, 1)" "- 1" "1 / 10000" "1 / 50" "CUDA 0" RuntimeError]
    init_fails_iff_negative_steps_or_unusable_device
      [of 1 demo_net "(28, 28, 1)" 1000 "1 / 10000" "1 / 50" "CUDA 0" RuntimeError]
  by (auto simp: usable_def)

subsection \<open>Forward, then one step back\<close>

lemma cumprod_first: "xs \<noteq> [] \<Longrightarrow> cumprod xs ! 0 = xs ! 0"
  by (cases xs) (simp_all add: cumprod_def)

lemma first_step_coefficients:
  assumes hyp: "1 \<le> T"
    and built: "Diffusion_init gpus mdl res T (beta_min, beta_max) dev = Inr S"
  shows "alphas S ! 0 = 1 - beta_min" "sqrt_alphas S ! 0 = sqrt (1 - beta_min)"
    "sqrt_alpha_bars S ! 0 = sqrt (1 - beta_min)"
    "sqrt_one_minus_alpha_bars S ! 0 = sqrt beta_min"
    "length (alphas S) = nat T" "length (sqrt_alphas S) = nat T"
    "length (sqrt_alpha_bars S) = nat T" "length (sqrt_one_minus_alpha_bars S) = nat T"
    "length (sqrt_betas S) = nat T"
proof -
  obtain betas where betas: "linspace beta_min beta_max T = Inr betas" "length betas = nat T"
    and pts: "\<forall>i<nat T. betas ! i = (if T = 1 then beta_min
                 else beta_min + real i * ((beta_max - beta_min) / real_of_int (T - 1)))"
    using linspace_points [of T beta_min beta_max] hyp by auto
  have dev: "usable gpus dev"
    using built betas
    by (cases "usable gpus dev") (simp_all add: Diffusion_init_def place_on_def bindE_def)
  have first: "betas ! 0 = beta_min" and ne: "betas \<noteq> []"
    using pts hyp betas by auto
  have S: "S = \<lparr>n_times = T, img_H = fst res, img_W = fst (snd res), img_C = snd (snd res),
                  model = mdl,
                  sqrt_betas = map sqrt betas,
                  alphas = map (\<lambda>b. 1 - b) betas,
                  sqrt_alphas = map sqrt (map (\<lambda>b. 1 - b) betas),
                  sqrt_one_minus_alpha_bars = map (\<lambda>a. sqrt (1 - a)) (cumprod (map (\<lambda>b. 1 - b) betas)),
                  sqrt_alpha_bars = map sqrt (cumprod (map (\<lambda>b. 1 - b) betas)),
                  device' = dev\<rparr>"
    using built Diffusion_init_schedule [OF betas(1) dev, of mdl res] by simp
  have pos: "0 < length betas" using ne by simp
  show "alphas S ! 0 = 1 - beta_min" "sqrt_alphas S ! 0 = sqrt (1 - beta_min)"
    "sqrt_alpha_bars S ! 0 = sqrt (1 - beta_min)"
    "sqrt_one_minus_alpha_bars S ! 0 = sqrt beta_min"
    using first ne pos by (simp_all add: S cumprod_first)
  show "length (alphas S) = nat T" "length (sqrt_alphas S) = nat T"
    "length (sqrt_alpha_bars S) = nat T" "length (sqrt_one_minus_alpha_bars S) = nat T"
    "length (sqrt_betas S) = nat T"
    using betas by (simp_all add: S)
qed

lemma step_zero_inverse:
  fixes b v e :: real
  assumes "0 < b" "b < 1" "- 1 \<le> v" "v \<le> 1"
  shows "clamp (-1) 1 (1 / sqrt (1 - b) * (v * sqrt (1 - b) + e * sqrt b - (1 - (1 - b)) / sqrt b * e) + s * 0) = v"
proof -
  have sb: "sqrt b \<noteq> 0" and sa: "sqrt (1 - b) \<noteq> 0"
    using assms by simp_all
  have "b / sqrt b = sqrt b"
    using assms by (simp add: real_div_sqrt)
  then have "1 / sqrt (1 - b) * (v * sqrt (1 - b) + e * sqrt b - (1 - (1 - b)) / sqrt b * e) = v"
    using sa by (simp add: field_simps)
  then show ?thesis
    using assms by (simp add: clamp_def)
qed

text \<open>
  Claim C3, amended. At timestep 0 the round trip is exact: for a schedule that was built with
  \<open>0 < beta_min < 1\<close> and \<open>T \<ge> 1\<close> (every valid schedule is one) and a clean four-dimensional
  batch with values in [-1, 1], injecting noise at \<open>t = 0\<close> succeeds, and one reverse step at
  \<open>t = 0\<close> with a network that returns the recorded noise gives the clean batch back.
\<close>

theorem round_trip_at_step_zero:
  assumes hyp: "0 < beta_min" "beta_min < 1" "1 \<le> T"
    and built: "Diffusion_init gpus mdl res T (beta_min, beta_max) dev = Inr S"
    and shaped: "well_shaped x" "shape x = [n, c, h, w]"
    and range: "list_all (\<lambda>v. - 1 \<le> v \<and> v \<le> 1) (elems x)"
  shows "\<exists>noisy. make_noisy S x (replicate n 0) g = Inr (noisy, randn_like x g)
           \<and> (model S noisy (replicate n 0) = randn_like x g
                \<longrightarrow> denoise_at_t S noisy (replicate n 0) 0 g' = Inr x)"
proof -
  let ?ts = "replicate n (0::int)"
  let ?m = "prod_list [c, h, w]"
  let ?noisy = "\<lparr>shape = shape x,
                 elems = map (\<lambda>i. elems x ! i * sqrt_alpha_bars S ! nat (?ts ! (i div ?m))
                                   + g i * sqrt_one_minus_alpha_bars S ! nat (?ts ! (i div ?m)))
                               [0..<numel (shape x)]\<rparr>"
  let ?eps = "randn_like x g"
  note co = first_step_coefficients [OF hyp(3) built]
  have T: "0 < nat T" using hyp by simp
  have valid: "list_all (\<lambda>k. 0 \<le> k \<and> k < int (nat T)) ?ts"
    using hyp by (simp add: list_all_replicate_iff)
  have fwd: "make_noisy S x ?ts g = Inr (?noisy, ?eps)"
    using shaped valid co by (intro make_noisy_value) simp_all
  have len: "length (elems x) = numel (shape x)"
    using shaped by (simp add: well_shaped_def)
  have bwd: "denoise_at_t S ?noisy ?ts 0 g' = Inr x" if net: "model S ?noisy ?ts = ?eps"
  proof -
    have wn: "well_shaped ?noisy" "shape ?noisy = [n, c, h, w]"
      using shaped by (simp_all add: well_shaped_def)
    have "denoise_at_t S ?noisy ?ts 0 g'
        = Inr \<lparr>shape = shape ?noisy,
                  elems = map (\<lambda>i. clamp (-1) 1
                      (1 / sqrt_alphas S ! nat 0
                         * (elems ?noisy ! i
                            - (1 - alphas S ! nat 0) / sqrt_one_minus_alpha_bars S ! nat 0
                              * elems (model S ?noisy ?ts) ! i)
                       + sqrt_betas S ! nat 0
                         * elems (if 1 < (0::int) then randn_like ?noisy g' else zeros_like ?noisy) ! i))
                    [0..<numel (shape ?noisy)]\<rparr>"
      using wn T co net
      by (intro denoise_at_t_value [where T = "nat T"]) (simp_all add: randn_like_def)
    also have "\<dots> = Inr \<lparr>shape = shape x, elems = elems x\<rparr>"
    proof -
      have "clamp (-1) 1
                      (1 / sqrt_alphas S ! nat 0
                         * (elems ?noisy ! i
                            - (1 - alphas S ! nat 0) / sqrt_one_minus_alpha_bars S ! nat 0
                              * elems (model S ?noisy ?ts) ! i)
                       + sqrt_betas S ! nat 0
                         * elems (if 1 < (0::int) then randn_like ?noisy g' else zeros_like ?noisy) ! i)
            = elems x ! i" if i: "i < numel (shape x)" for i
      proof -
        have "i < n * ?m" using i shaped by (simp add: numel_def)
        then have "i div ?m < n" by (rule less_mult_imp_div_less)
        then have ts: "?ts ! (i div ?m) = 0" by simp
        have "elems x ! i \<in> set (elems x)" using i len by simp
        then have v: "- 1 \<le> elems x ! i" "elems x ! i \<le> 1"
          using range by (auto simp: list_all_iff)
        show ?thesis
          using i ts co(1-4) net step_zero_inverse [OF hyp(1,2) v, of "g i" "sqrt_betas S ! 0"]
          by (simp add: randn_like_def zeros_like_def)
      qed
      then have "map (\<lambda>i. clamp (-1) 1
                      (1 / sqrt_alphas S ! nat 0
                         * (elems ?noisy ! i
                            - (1 - alphas S ! nat 0) / sqrt_one_minus_alpha_bars S ! nat 0
                              * elems (model S ?noisy ?ts) ! i)
                       + sqrt_betas S ! nat 0
                         * elems (if 1 < (0::int) then randn_like ?noisy g' else zeros_like ?noisy) ! i))
                    [0..<numel (shape x)] = map (\<lambda>i. elems x ! i) [0..<numel (shape x)]"
        by (intro map_cong) simp_all
      also have "\<dots> = elems x"
        using map_nth [of "elems x"] len by simp
      finally show ?thesis by simp
    qed
    finally show ?thesis by simp
  qed
  from fwd bwd show ?thesis by blast
qed

lemma Diffusion_init_model:
  "Diffusion_init gpus mdl res T betas dev = Inr S \<Longrightarrow> model S = mdl"
  by (auto simp: Diffusion_init_def place_on_def bindE_def Let_def
      split: prod.splits sum.splits if_splits)

lemma sqrt_quarter: "sqrt (1 / 4) = 1 / 2"
  by (rule real_sqrt_unique) (simp_all add: power2_eq_square)

lemma sqrt_ninth: "sqrt (1 / 9) = 1 / 3"
  by (rule real_sqrt_unique) (simp_all add: power2_eq_square)

lemma sqrt_36th: "sqrt (1 / 36) = 1 / 6"
  by (rule real_sqrt_unique) (simp_all add: power2_eq_square)

theorem round_trip_at_step_zero_witness:
  "\<exists>S noisy. Diffusion_init 0 (replay_net \<lparr>shape = [1, 1, 1, 2], elems = [0, 1]\<rparr>) (1, 2, 1) 2
           (1 / 4, 1 / 2) CPU
         = Inr S
     \<and> make_noisy S \<lparr>shape = [1, 1, 1, 2], elems = [1 / 2, - 1]\<rparr> [0] real
         = Inr (noisy, \<lparr>shape = [1, 1, 1, 2], elems = [0, 1]\<rparr>)
     \<and> denoise_at_t S noisy [0] 0 no_noise = Inr \<lparr>shape = [1, 1, 1, 2], elems = [1 / 2, - 1]\<rparr>"
proof -
  let ?E = "\<lparr>shape = [1, 1, 1, 2], elems = [0, 1 :: real]\<rparr>"
  let ?x = "\<lparr>shape = [1, 1, 1, 2], elems = [1 / 2, - 1 :: real]\<rparr>"
  obtain S where S: "Diffusion_init 0 (replay_net ?E) (1, 2, 1) 2 (1 / 4, 1 / 2) CPU = Inr S"
    by (simp add: Diffusion_init_def linspace_def place_on_def usable_def bindE_def Let_def)
  have E: "randn_like ?x real = ?E"
    by (simp add: randn_like_def numel_def upt_rec)
  have net: "model S noisy [0] = ?E" for noisy
    using Diffusion_init_model [OF S] by (simp add: replay_net_def)
  from round_trip_at_step_zero [OF _ _ _ S, of ?x 1 1 1 2 real no_noise] E net
  show ?thesis
    using S by (auto simp: well_shaped_def numel_def)
qed

text \<open>
  Claim C3, as the specification states it, fails at every timestep after 0. With \<open>T = 2\<close>,
  the betas \<open>(3/4, 8/9)\<close>, the clean one-pixel image 1 and the draw 0, injecting noise at
  \<open>t = 1\<close> gives 1/6, and the reverse step at \<open>t = 1\<close> with the network that returns the
  recorded noise gives 1/2, not 1.
\<close>

theorem round_trip_fails_at_step_one:
  "Diffusion_init 0 (replay_net \<lparr>shape = [1, 1, 1, 1], elems = [0]\<rparr>) (1, 1, 1) 2 (3 / 4, 8 / 9)
       CPU
     = Inr late_schedule
   \<and> make_noisy late_schedule \<lparr>shape = [1, 1, 1, 1], elems = [1]\<rparr> [1] no_noise
     = Inr (\<lparr>shape = [1, 1, 1, 1], elems = [1 / 6]\<rparr>, \<lparr>shape = [1, 1, 1, 1], elems = [0]\<rparr>)
   \<and> model late_schedule \<lparr>shape = [1, 1, 1, 1], elems = [1 / 6]\<rparr> [1]
     = \<lparr>shape = [1, 1, 1, 1], elems = [0]\<rparr>
   \<and> denoise_at_t late_schedule \<lparr>shape = [1, 1, 1, 1], elems = [1 / 6]\<rparr> [1] 1 no_noise
     = Inr \<lparr>shape = [1, 1, 1, 1], elems = [1 / 2]\<rparr>"
proof -
  have built: "Diffusion_init 0 (replay_net \<lparr>shape = [1, 1, 1, 1], elems = [0]\<rparr>) (1, 1, 1) 2 (3 / 4, 8 / 9)
       CPU
     = Inr late_schedule"
    by (simp add: Diffusion_init_def linspace_def place_on_def usable_def bindE_def Let_def
        cumprod_def late_schedule_def
        upt_rec sqrt_quarter sqrt_ninth sqrt_36th)
  have fwd: "make_noisy late_schedule \<lparr>shape = [1, 1, 1, 1], elems = [1]\<rparr> [1] no_noise
     = Inr (\<lparr>shape = [1, 1, 1, 1], elems = [1 / 6]\<rparr>, \<lparr>shape = [1, 1, 1, 1], elems = [0]\<rparr>)"
    using make_noisy_value [of "\<lparr>shape = [1, 1, 1, 1], elems = [1]\<rparr>" 1 "[1, 1, 1]" "[1]" 2
        late_schedule no_noise]
    by (simp add: well_shaped_def numel_def late_schedule_def randn_like_def no_noise_def)
  have net: "model late_schedule \<lparr>shape = [1, 1, 1, 1], elems = [1 / 6]\<rparr> [1]
     = \<lparr>shape = [1, 1, 1, 1], elems = [0]\<rparr>"
    by (simp add: late_schedule_def replay_net_def)
  have bwd: "denoise_at_t late_schedule \<lparr>shape = [1, 1, 1, 1], elems = [1 / 6]\<rparr> [1] 1 no_noise
     = Inr \<lparr>shape = [1, 1, 1, 1], elems = [1 / 2]\<rparr>"
    using denoise_at_t_value [of "\<lparr>shape = [1, 1, 1, 1], elems = [1 / 6]\<rparr>" 1 1 1 1 1 2
        late_schedule no_noise]
    by (simp add: well_shaped_def numel_def late_schedule_def replay_net_def zeros_like_def
        clamp_def)
  from built fwd net bwd show ?thesis by blast
qed

subsection \<open>Structural similarity\<close>

lemma sum_list_product:
  "(\<Sum>(a, b)\<leftarrow>List.product xs ys. f a b) = (\<Sum>a\<leftarrow>xs. \<Sum>b\<leftarrow>ys. f a b)"
  by (induction xs) (simp_all add: o_def)

lemma sum_list_shifted_square:
  fixes w v :: "'a \<Rightarrow> real"
  shows "(\<Sum>t\<leftarrow>ts. w t * (v t - m)\<^sup>2)
           = (\<Sum>t\<leftarrow>ts. w t * (v t)\<^sup>2) - 2 * m * (\<Sum>t\<leftarrow>ts. w t * v t) + m\<^sup>2 * (\<Sum>t\<leftarrow>ts. w t)"
  by (induction ts) (simp_all add: power2_eq_square algebra_simps)

lemma weighted_variance_nonneg:
  fixes w v :: "'a \<Rightarrow> real"
  assumes w: "\<forall>t\<in>set ts. 0 \<le> w t" and total: "(\<Sum>t\<leftarrow>ts. w t) \<le> 1"
  shows "(\<Sum>t\<leftarrow>ts. w t * v t)\<^sup>2 \<le> (\<Sum>t\<leftarrow>ts. w t * (v t)\<^sup>2)"
proof -
  let ?A = "\<Sum>t\<leftarrow>ts. w t * (v t)\<^sup>2" and ?B = "\<Sum>t\<leftarrow>ts. w t * v t" and ?W = "\<Sum>t\<leftarrow>ts. w t"
  have "0 \<le> (\<Sum>t\<leftarrow>ts. w t * (v t - ?B)\<^sup>2)"
    using w by (intro sum_list_nonneg) auto
  then have "0 \<le> ?A - 2 * ?B * ?B + ?B\<^sup>2 * ?W"
    by (simp only: sum_list_shifted_square)
  moreover have "?B\<^sup>2 * ?W \<le> ?B\<^sup>2 * 1"
    using total by (intro mult_left_mono) simp_all
  ultimately show ?thesis
    by (simp add: power2_eq_square)
qed

lemma sum_list_map_divide:
  fixes xs :: "real list"
  shows "(\<Sum>v\<leftarrow>xs. v / c) = sum_list xs / c"
  by (induction xs) (simp_all add: add_divide_distrib)

lemma sum_list_pos:
  fixes xs :: "real list"
  assumes "xs \<noteq> []" "\<forall>x\<in>set xs. 0 < x"
  shows "0 < sum_list xs"
  using assms by (induction xs) (auto intro: add_pos_nonneg sum_list_nonneg less_imp_le)

lemma gaussian_window_props:
  assumes "0 < n"
  shows "length (gaussian_window n sg) = n"
    and "\<forall>v\<in>set (gaussian_window n sg). 0 \<le> v"
    and "sum_list (gaussian_window n sg) = 1"
proof -
  let ?g = "map (\<lambda>c. exp (- (c\<^sup>2) / (2 * sg\<^sup>2))) (map (\<lambda>i. real i - (real n - 1) / 2) [0..<n])"
  have pos: "0 < sum_list ?g"
    using assms by (intro sum_list_pos) auto
  have gw: "gaussian_window n sg = map (\<lambda>v. v / sum_list ?g) ?g"
    by (simp add: gaussian_window_def Let_def)
  show "length (gaussian_window n sg) = n"
    by (simp add: gw)
  show "\<forall>v\<in>set (gaussian_window n sg). 0 \<le> v"
    unfolding gw using pos by (auto intro!: divide_nonneg_pos)
  show "sum_list (gaussian_window n sg) = 1"
    unfolding gw using pos by (simp only: sum_list_map_divide) simp
qed

lemma flat_index_less: "a < (A::nat) \<Longrightarrow> b < B \<Longrightarrow> a * B + b < A * B"
proof -
  assume "a < A" "b < B"
  then have "a * B + b < Suc a * B" by simp
  also have "\<dots> \<le> A * B" using \<open>a < A\<close> by (intro mult_le_mono1) simp
  finally show ?thesis .
qed

lemma flat_index_div_mod:
  "c < (L::nat) \<Longrightarrow> (a * L + c) div L = a \<and> (a * L + c) mod L = c"
  by (simp add: div_mult_self3)

lemma outer_product_nth:
  assumes "a < length g" "c < length g"
  shows "map (\<lambda>(u, v). u * v) (List.product g g) ! (a * length g + c) = g ! a * g ! (c::nat)"
    (is "?w ! _ = _")
proof -
  have lt: "a * length g + c < length g * length g"
    using assms by (rule flat_index_less)
  have dm: "(a * length g + c) div length g = a" "(a * length g + c) mod length g = c"
    using assms flat_index_div_mod [of c "length g" a] by blast+
  from lt have "?w ! (a * length g + c)
      = (\<lambda>(u, v). u * v) (List.product g g ! (a * length g + c))"
    by (intro nth_map) simp
  also have "List.product g g ! (a * length g + c) = (g ! a, g ! c)"
    using lt by (simp only: product_nth dm)
  finally show ?thesis by simp
qed

lemma sum_list_nth_upt: "(\<Sum>i\<leftarrow>[0..<length xs]. xs ! i) = sum_list (xs::real list)"
  using map_nth [of xs] by (simp add: sum_list_def)

lemma create_window_single:
  "create_window ws sg (Suc 0)
     = \<lparr>shape = [1, 1, ws, ws],
        elems = map (\<lambda>(u, v). u * v) (List.product (gaussian_window ws sg) (gaussian_window ws sg))\<rparr>"
  by (simp add: create_window_def Let_def)

lemma half_window_fits: "0 < h \<Longrightarrow> ws \<le> h + 2 * (ws div 2)" for h ws :: nat
  by arith

lemma conv2d_batch_value:
  assumes "shape x = [n, cin, h, w]" "shape wt = [cout, cg, kh, kw]"
    and "0 < g" "cin = g * cg" "cout mod g = 0" "0 < kh" "0 < kw"
    and "kh \<le> h + 2 * p" "kw \<le> w + 2 * p"
  shows "conv2d_batch x wt p g
           = Inr \<lparr>shape = [n, cout, h + 2 * p - kh + 1, w + 2 * p - kw + 1],
                  elems = map (\<lambda>(b, co, i, j).
                      \<Sum>(ci, a, c) \<leftarrow> List.product [0..<cg] (List.product [0..<kh] [0..<kw]).
                        elems wt ! (((co * cg + ci) * kh + a) * kw + c)
                        * padded x p b (co div (cout div g) * cg + ci) (i + a) (j + c))
                    (List.product [0..<n] (List.product [0..<cout]
                       (List.product [0..<h + 2 * p - kh + 1] [0..<w + 2 * p - kw + 1])))\<rparr>"
  using assms by (simp add: conv2d_batch_def)

lemma sum_list_product_cong:
  assumes "\<And>a c. a \<in> set xs \<Longrightarrow> c \<in> set ys \<Longrightarrow> f a c = g a c"
  shows "(\<Sum>(a, c)\<leftarrow>List.product xs ys. f a c) = (\<Sum>(a, c)\<leftarrow>List.product xs ys. g a c)"
  by (rule arg_cong [where f = sum_list], rule map_cong) (auto simp: assms)

lemma sum_list_single_group:
  "(\<Sum>(ci, a, c)\<leftarrow>List.product [0..<1] r. G ci a c) = (\<Sum>(a, c)\<leftarrow>r. G 0 a c)"
  by (simp add: o_def split_def)

lemma conv2d_batch_single_channel:
  assumes y: "shape y = [n, 1, h, w]" and ws: "0 < ws" and hw: "0 < h" "0 < w"
  shows "conv2d_batch y (create_window ws sg 1) (ws div 2) 1
           = Inr \<lparr>shape = [n, 1, h + 2 * (ws div 2) - ws + 1, w + 2 * (ws div 2) - ws + 1],
                  elems = map (window_sum ws sg y)
                    (List.product [0..<n] (List.product [0..<1]
                       (List.product [0..<h + 2 * (ws div 2) - ws + 1]
                          [0..<w + 2 * (ws div 2) - ws + 1])))\<rparr>"
proof -
  let ?g = "gaussian_window ws sg"
  let ?K = "create_window ws sg 1"
  let ?p = "ws div 2"
  let ?P = "List.product [0..<n] (List.product [0..<1]
              (List.product [0..<h + 2 * ?p - ws + 1] [0..<w + 2 * ?p - ws + 1]))"
  let ?F = "\<lambda>(b, co, i, j).
              \<Sum>(ci, a, c) \<leftarrow> List.product [0..<1] (List.product [0..<ws] [0..<ws]).
                elems ?K ! (((co * 1 + ci) * ws + a) * ws + c)
                * padded y ?p b (co div (1 div 1) * 1 + ci) (i + a) (j + c)"
  have len: "length ?g = ws"
    using ws by (rule gaussian_window_props)
  have tap: "elems ?K ! (a * ws + c) = ?g ! a * ?g ! c" if "a < ws" "c < ws" for a c
    using outer_product_nth [of a ?g c] that len by (simp add: create_window_single)
  have K: "shape ?K = [1, 1, ws, ws]"
    by (simp add: create_window_single)
  have conv: "conv2d_batch y ?K ?p 1 = Inr \<lparr>shape = [n, 1, h + 2 * ?p - ws + 1, w + 2 * ?p - ws + 1],
                  elems = map ?F ?P\<rparr>"
    using hw ws by (intro conv2d_batch_value [OF y K]) (simp_all add: half_window_fits)
  have "map ?F ?P = map (window_sum ws sg y) ?P"
  proof (rule map_cong [OF refl])
    fix q assume "q \<in> set ?P"
    then obtain b i j where q: "q = (b, 0, i, j)"
      by auto
    have "?F q = (\<Sum>(a, c) \<leftarrow> List.product [0..<ws] [0..<ws].
                elems ?K ! (((0 * 1 + 0) * ws + a) * ws + c)
                * padded y ?p b (0 div (1 div 1) * 1 + 0) (i + a) (j + c))"
      unfolding q prod.case by (rule sum_list_single_group)
    also have "\<dots> = (\<Sum>(a, c) \<leftarrow> List.product [0..<ws] [0..<ws].
                (?g ! a * ?g ! c) * padded y ?p b 0 (i + a) (j + c))"
      by (rule sum_list_product_cong) (simp add: tap [unfolded One_nat_def])
    also have "\<dots> = window_sum ws sg y q"
      by (simp add: window_sum_def q)
    finally show "?F q = window_sum ws sg y q" .
  qed
  with conv show ?thesis by simp
qed

lemma gaussian_weights_total:
  assumes "0 < ws"
  shows "(\<Sum>(a, c)\<leftarrow>List.product [0..<ws] [0..<ws].
            gaussian_window ws sg ! a * gaussian_window ws sg ! c) = 1"
proof -
  let ?g = "gaussian_window ws sg"
  have len: "length ?g = ws" and total: "sum_list ?g = 1"
    using assms by (rule gaussian_window_props)+
  have one: "(\<Sum>i\<leftarrow>[0..<ws]. ?g ! i) = 1"
    using sum_list_nth_upt [of ?g] len total by simp
  have "(\<Sum>(a, c)\<leftarrow>List.product [0..<ws] [0..<ws]. ?g ! a * ?g ! c)
      = (\<Sum>a\<leftarrow>[0..<ws]. \<Sum>c\<leftarrow>[0..<ws]. ?g ! a * ?g ! c)"
    by (rule sum_list_product)
  also have "\<dots> = (\<Sum>a\<leftarrow>[0..<ws]. ?g ! a * (\<Sum>c\<leftarrow>[0..<ws]. ?g ! c))"
    by (simp add: sum_list_const_mult)
  also have "\<dots> = 1"
    by (simp add: one)
  finally show ?thesis .
qed

lemma padded_square:
  assumes x: "shape x = [n, 1, h, w]" "well_shaped x" and b: "b < n"
  shows "padded \<lparr>shape = shape x, elems = map2 (*) (elems x) (elems x)\<rparr> p b 0 i j
           = (padded x p b 0 i j)\<^sup>2"
proof (cases "p \<le> i \<and> i < h + p \<and> p \<le> j \<and> j < w + p")
  case True
  then have r: "i - p < h" "j - p < w" by auto
  have "b * h + (i - p) < n * h"
    using b r(1) by (rule flat_index_less)
  then have "(b * h + (i - p)) * w + (j - p) < n * h * w"
    using r(2) by (rule flat_index_less)
  moreover have "length (elems x) = n * h * w"
    using x by (simp add: well_shaped_def numel_def)
  ultimately show ?thesis
    using True x by (simp add: padded_def power2_eq_square)
next
  case False
  then show ?thesis
    using x by (auto simp: padded_def)
qed

lemma window_variance_nonneg:
  assumes x: "shape x = [n, 1, h, w]" "well_shaped x" and ws: "0 < ws" and b: "b < n"
  shows "(window_sum ws sg x (b, co, i, j))\<^sup>2
           \<le> window_sum ws sg \<lparr>shape = shape x, elems = map2 (*) (elems x) (elems x)\<rparr> (b, co, i, j)"
proof -
  let ?g = "gaussian_window ws sg"
  let ?ts = "List.product [0..<ws] [0..<ws]"
  let ?w = "\<lambda>t. ?g ! fst t * ?g ! snd t"
  let ?v = "\<lambda>t. padded x (ws div 2) b 0 (i + fst t) (j + snd t)"
  have len: "length ?g = ws" and nonneg: "\<forall>v\<in>set ?g. 0 \<le> v"
    using ws by (rule gaussian_window_props)+
  have w: "\<forall>t\<in>set ?ts. 0 \<le> ?w t"
    using len nonneg by (auto intro!: mult_nonneg_nonneg)
  have total: "(\<Sum>t\<leftarrow>?ts. ?w t) \<le> 1"
    using gaussian_weights_total [OF ws, of sg] by (simp add: split_def)
  have "(\<Sum>t\<leftarrow>?ts. ?w t * ?v t)\<^sup>2 \<le> (\<Sum>t\<leftarrow>?ts. ?w t * (?v t)\<^sup>2)"
    using w total by (rule weighted_variance_nonneg)
  then show ?thesis
    using padded_square [OF x b] by (simp add: window_sum_def split_def)
qed

lemma map2_same_source: "map2 f (map a xs) (map b xs) = map (\<lambda>q. f (a q) (b q)) xs"
  by (induction xs) auto

lemma binop_positions:
  assumes "length P = numel S"
  shows "binop f \<lparr>shape = S, elems = map a P\<rparr> \<lparr>shape = S, elems = map b P\<rparr>
           = Inr \<lparr>shape = S, elems = map (\<lambda>q. f (a q) (b q)) P\<rparr>"
  using binop_same_shape [of "\<lparr>shape = S, elems = map a P\<rparr>" "\<lparr>shape = S, elems = map b P\<rparr>" f] assms
  by (simp add: well_shaped_def map2_same_source)

lemma tmap_positions:
  "tmap f \<lparr>shape = S, elems = map a P\<rparr> = \<lparr>shape = S, elems = map (\<lambda>q. f (a q)) P\<rparr>"
  by (simp add: tmap_def o_def)

lemma conv2d_gaussian:
  assumes "shape (data im) = [n, 1, h, w]" "0 < ws" "0 < h" "0 < w"
    and "dtype im = d" "device im = dv"
  shows "conv2d im \<lparr>dtype = d, device = dv, data = create_window ws sg 1\<rparr> (ws div 2) 1
           = Inr \<lparr>shape = [n, 1, h + 2 * (ws div 2) - ws + 1, w + 2 * (ws div 2) - ws + 1],
                  elems = map (window_sum ws sg (data im))
                    (List.product [0..<n] (List.product [0..<1]
                       (List.product [0..<h + 2 * (ws div 2) - ws + 1]
                          [0..<w + 2 * (ws div 2) - ws + 1])))\<rparr>"
  using assms conv2d_batch_single_channel [of "data im" n h w ws sg]
  by (simp add: conv2d_def conv2d_values_def)

lemma mean_all_one:
  assumes "P \<noteq> []" "\<forall>q\<in>set P. f q = 1"
  shows "mean \<lparr>shape = S, elems = map f P\<rparr> = 1"
proof -
  have eq: "map f P = map (\<lambda>q. 1) P"
    using assms(2) by (intro map_cong) simp_all
  have "sum_list (map f P) = sum_list (map (\<lambda>q. 1::real) P)"
    by (simp only: eq)
  also have "\<dots> = real (length P)"
    by (simp add: sum_list_triv)
  finally show ?thesis
    using assms(1) by (simp add: mean_def)
qed

lemma ssim_pixel_self:
  fixes m e :: real
  assumes "m\<^sup>2 \<le> e"
  shows "clamp 0 1 ((2 * m * m + (1 / 100)\<^sup>2) * (2 * (e - m * m) + (3 / 100)\<^sup>2)
           / ((m\<^sup>2 + m\<^sup>2 + (1 / 100)\<^sup>2) * (e - m\<^sup>2 + (e - m\<^sup>2) + (3 / 100)\<^sup>2))) = 1"
proof -
  have a: "0 < 2 * m * m + (1 / 100)\<^sup>2"
    by (intro add_nonneg_pos) (simp_all add: mult.assoc)
  have b: "0 < 2 * (e - m * m) + (3 / 100)\<^sup>2"
    using assms by (intro add_nonneg_pos) (simp_all add: power2_eq_square)
  have "(m\<^sup>2 + m\<^sup>2 + (1 / 100)\<^sup>2) * (e - m\<^sup>2 + (e - m\<^sup>2) + (3 / 100)\<^sup>2)
      = (2 * m * m + (1 / 100)\<^sup>2) * (2 * (e - m * m) + (3 / 100)\<^sup>2)"
    by (simp add: power2_eq_square)
  moreover have "(2 * m * m + (1 / 100)\<^sup>2) * (2 * (e - m * m) + (3 / 100)\<^sup>2) \<noteq> 0"
    using a b by simp
  ultimately show ?thesis
    by (simp add: clamp_def)
qed

lemma forward_self_value:
  assumes x: "shape (data img) = [n, 1, h, w]" "well_shaped (data img)"
    and ws: "0 < ws" and hw: "0 < h" "0 < w"
  shows "fst (SSIMLoss_forward (SSIMLoss_init ws sg) img img)
           = Inr (mean \<lparr>shape = [n, 1, h + 2 * (ws div 2) - ws + 1, w + 2 * (ws div 2) - ws + 1],
                   elems = map (\<lambda>q. clamp 0 1
                       ((2 * window_sum ws sg (data img) q * window_sum ws sg (data img) q + (1 / 100)\<^sup>2)
                        * (2 * (window_sum ws sg \<lparr>shape = shape (data img),
                                    elems = map2 (*) (elems (data img)) (elems (data img))\<rparr> q
                                - window_sum ws sg (data img) q * window_sum ws sg (data img) q)
                           + (3 / 100)\<^sup>2)
                        / (((window_sum ws sg (data img) q)\<^sup>2 + (window_sum ws sg (data img) q)\<^sup>2
                            + (1 / 100)\<^sup>2)
                           * (window_sum ws sg \<lparr>shape = shape (data img),
                                    elems = map2 (*) (elems (data img)) (elems (data img))\<rparr> q
                                - (window_sum ws sg (data img) q)\<^sup>2
                              + (window_sum ws sg \<lparr>shape = shape (data img),
                                    elems = map2 (*) (elems (data img)) (elems (data img))\<rparr> q
                                - (window_sum ws sg (data img) q)\<^sup>2)
                              + (3 / 100)\<^sup>2))))
                     (List.product [0..<n] (List.product [0..<1]
                       (List.product [0..<h + 2 * (ws div 2) - ws + 1]
                          [0..<w + 2 * (ws div 2) - ws + 1])))\<rparr>)"
proof -
  let ?x = "data img"
  let ?sq = "\<lparr>shape = shape ?x, elems = map2 (*) (elems ?x) (elems ?x)\<rparr>"
  let ?k = "\<lparr>dtype = dtype img, device = device img, data = create_window ws sg 1\<rparr>"
  let ?P = "List.product [0..<n] (List.product [0..<1]
              (List.product [0..<h + 2 * (ws div 2) - ws + 1] [0..<w + 2 * (ws div 2) - ws + 1]))"
  let ?S = "[n, 1, h + 2 * (ws div 2) - ws + 1, w + 2 * (ws div 2) - ws + 1]"
  have sq: "binop (*) ?x ?x = Inr ?sq"
    using x by (intro binop_same_shape) simp_all
  have c1: "conv2d img ?k (ws div 2) 1 = Inr \<lparr>shape = ?S, elems = map (window_sum ws sg ?x) ?P\<rparr>"
    using x ws hw by (intro conv2d_gaussian) simp_all
  have c2: "conv2d (img\<lparr>data := ?sq\<rparr>) ?k (ws div 2) 1
      = Inr \<lparr>shape = ?S, elems = map (window_sum ws sg ?sq) ?P\<rparr>"
    using conv2d_gaussian [of "img\<lparr>data := ?sq\<rparr>" n h w ws "dtype img" "device img" sg] x ws hw
    by simp
  have len: "length ?P = numel ?S"
    by (simp add: numel_def)
  show ?thesis
    unfolding SSIMLoss_forward_def SSIMLoss_init_def Let_def to_dtype_def to_device_def
    by (simp add: c1 [simplified] c2 [simplified] sq bindE_def
        binop_positions [OF len, simplified] tmap_positions)
qed

text \<open>
  Claim C8. The SSIM score of an image batch compared with itself is 1, for every window size
  and sigma: with \<open>img1 = img2\<close> the numerator and the denominator coincide at every pixel and
  are not zero, so the clamped mean is 1. The batch is one that the component accepts (single
  channel, not empty), the window has at least one tap and \<open>sigma\<close> is not 0; arithmetic is
  exact.
\<close>

theorem ssim_self_is_one:
  assumes "shape (data img) = [n, 1, h, w]" and "well_shaped (data img)"
    and "0 < n" and "0 < h" and "0 < w"
    and "0 < ws" and "sg \<noteq> 0"
  shows "fst (SSIMLoss_forward (SSIMLoss_init ws sg) img img) = Inr 1"
proof -
  let ?x = "data img"
  let ?sq = "\<lparr>shape = shape ?x, elems = map2 (*) (elems ?x) (elems ?x)\<rparr>"
  let ?P = "List.product [0..<n] (List.product [0..<1]
              (List.product [0..<h + 2 * (ws div 2) - ws + 1] [0..<w + 2 * (ws div 2) - ws + 1]))"
  let ?f = "\<lambda>q. clamp 0 1
                       ((2 * window_sum ws sg ?x q * window_sum ws sg ?x q + (1 / 100)\<^sup>2)
                        * (2 * (window_sum ws sg ?sq q
                                - window_sum ws sg ?x q * window_sum ws sg ?x q)
                           + (3 / 100)\<^sup>2)
                        / (((window_sum ws sg ?x q)\<^sup>2 + (window_sum ws sg ?x q)\<^sup>2
                            + (1 / 100)\<^sup>2)
                           * (window_sum ws sg ?sq q - (window_sum ws sg ?x q)\<^sup>2
                              + (window_sum ws sg ?sq q - (window_sum ws sg ?x q)\<^sup>2)
                              + (3 / 100)\<^sup>2)))"
  have "0 < length ?P"
    using assms(3) by (simp del: upt_Suc)
  then have nonempty: "?P \<noteq> []"
    by (rule length_greater_0_conv [THEN iffD1])
  have one: "\<forall>q\<in>set ?P. ?f q = 1"
  proof
    fix q assume "q \<in> set ?P"
    then obtain b co i j where q: "q = (b, co, i, j)" and b: "b < n"
      by auto
    have "(window_sum ws sg ?x q)\<^sup>2 \<le> window_sum ws sg ?sq q"
      unfolding q using assms(1,2,6) b by (rule window_variance_nonneg)
    then show "?f q = 1"
      by (rule ssim_pixel_self)
  qed
  have "fst (SSIMLoss_forward (SSIMLoss_init ws sg) img img)
      = Inr (mean \<lparr>shape = [n, 1, h + 2 * (ws div 2) - ws + 1, w + 2 * (ws div 2) - ws + 1],
                   elems = map ?f ?P\<rparr>)"
    using assms(1,2,6,4,5) by (rule forward_self_value)
  also have "\<dots> = Inr 1"
    by (rule arg_cong [where f = Inr], rule mean_all_one [OF nonempty one])
  finally show ?thesis .
qed

theorem ssim_self_is_one_witness:
  "fst (SSIMLoss_forward (SSIMLoss_init 11 (3 / 2))
          \<lparr>dtype = Float32, device = CPU, data = \<lparr>shape = [1, 1, 2, 2], elems = [0, 1 / 4, 1 / 2, 1]\<rparr>\<rparr>
          \<lparr>dtype = Float32, device = CPU, data = \<lparr>shape = [1, 1, 2, 2], elems = [0, 1 / 4, 1 / 2, 1]\<rparr>\<rparr>)
     = Inr 1"
  using ssim_self_is_one [of
      "\<lparr>dtype = Float32, device = CPU, data = \<lparr>shape = [1, 1, 2, 2], elems = [0, 1 / 4, 1 / 2, 1]\<rparr>\<rparr>"
      1 2 2 11 "3 / 2"]
  by (simp add: well_shaped_def numel_def)

lemma forward_state:
  "snd (SSIMLoss_forward self img1 img2)
     = self\<lparr>window := (window self)\<lparr>dtype := dtype img1, device := device img1\<rparr>\<rparr>"
  by (simp add: SSIMLoss_forward_def Let_def to_dtype_def to_device_def)

text \<open>
  Claim C9, as the specification states it, fails: a call with a half-precision image on a GPU
  leaves the half-precision kernel on that GPU in the object, in place of the single-precision
  kernel on the CPU that the constructor built.
\<close>

theorem forward_replaces_stored_kernel:
  "window (SSIMLoss_init 11 (3 / 2))
     = \<lparr>dtype = Float32, device = CPU, data = create_window 11 (3 / 2) 1\<rparr>
   \<and> window (snd (SSIMLoss_forward (SSIMLoss_init 11 (3 / 2)) half_image half_image))
     = \<lparr>dtype = Float16, device = CUDA 0, data = create_window 11 (3 / 2) 1\<rparr>"
  by (simp add: forward_state SSIMLoss_init_def half_image_def)

text \<open>
  Claim C9, amended. Every call assigns to the stored kernel its conversion to the precision
  and the device of the first image: the object is unchanged when the stored kernel already
  has them, and otherwise it holds the converted kernel afterwards, whether the score was
  computed or an exception raised. The window size, sigma and the channel count do not
  change.
\<close>

theorem forward_stores_converted_kernel:
  "snd (SSIMLoss_forward self img1 img2)
     = (if dtype (window self) = dtype img1 \<and> device (window self) = device img1 then self
        else self\<lparr>window := to_device (to_dtype (window self) (dtype img1)) (device img1)\<rparr>)"
  by (simp add: forward_state to_dtype_def to_device_def)

theorem forward_stores_converted_kernel_witness:
  "snd (SSIMLoss_forward (SSIMLoss_init 11 (3 / 2)) half_image half_image)
     = \<lparr>window_size = 11, sigma = 3 / 2, channel = 1,
        window = \<lparr>dtype = Float16, device = CUDA 0, data = create_window 11 (3 / 2) 1\<rparr>\<rparr>
   \<and> snd (SSIMLoss_forward
        \<lparr>window_size = 11, sigma = 3 / 2, channel = 1,
         window = \<lparr>dtype = Float16, device = CUDA 0, data = create_window 11 (3 / 2) 1\<rparr>\<rparr>
        half_image half_image)
     = \<lparr>window_size = 11, sigma = 3 / 2, channel = 1,
        window = \<lparr>dtype = Float16, device = CUDA 0, data = create_window 11 (3 / 2) 1\<rparr>\<rparr>"
  using forward_stores_converted_kernel [of "SSIMLoss_init 11 (3 / 2)" half_image half_image]
    forward_stores_converted_kernel [of
      "\<lparr>window_size = 11, sigma = 3 / 2, channel = 1,
        window = \<lparr>dtype = Float16, device = CUDA 0, data = create_window 11 (3 / 2) 1\<rparr>\<rparr>"
      half_image half_image]
  by (simp add: SSIMLoss_init_def half_image_def to_dtype_def to_device_def)

end
